theory Spec2Isabelle
  imports Main "HOL-Library.Word"
begin

section \<open>Account pool (src/plugin/accounts.ts)\<close>

text \<open>
  Times are the millisecond readings of \<open>Date.now()\<close>, modelled as integers. Each
  method of the account manager is synchronous; the model passes the clock reading of the
  call as the argument \<open>now\<close>. Accounts are JavaScript objects held in the array
  \<open>accounts\<close>; a reference to one of them is modelled as its position in that array.
\<close>

text \<open>The parts of a stored refresh string; an absent project id is the empty string.\<close>

record RefreshParts =
  refreshToken :: string
  projectId :: string
  managedProjectId :: string

record ManagedAccount =
  index :: nat
  parts :: RefreshParts
  access :: "string option"
  expires :: "int option"
  isRateLimited :: bool
  rateLimitResetTime :: int
  lastUsed :: int

record AccountManager =
  accounts :: "ManagedAccount list"
  currentIndex :: nat

text \<open>The test of the filter callbacks: not flagged, or the reset time strictly passed.\<close>

definition eligible :: "int \<Rightarrow> ManagedAccount \<Rightarrow> bool" where
  "eligible now a \<longleftrightarrow> \<not> isRateLimited a \<or> now > rateLimitResetTime a"

text \<open>The side effect of the filter callback of \<open>getNext\<close>: an expired flag is cleared.\<close>

definition clearExpired :: "int \<Rightarrow> ManagedAccount \<Rightarrow> ManagedAccount" where
  "clearExpired now a =
     (if isRateLimited a \<and> now > rateLimitResetTime a then a\<lparr>isRateLimited := False\<rparr> else a)"

text \<open>The positions of the accounts kept by the filter of \<open>getNext\<close>.\<close>

definition available :: "int \<Rightarrow> AccountManager \<Rightarrow> nat list" where
  "available now m = filter (\<lambda>i. eligible now (accounts m ! i)) [0..<length (accounts m)]"

text \<open>
  \<open>getNext\<close>. The cursor taken modulo the number of eligible accounts is a position of
  the filtered array, so the test \<open>if (!account)\<close> never fires and has no branch here.
\<close>

definition getNext :: "int \<Rightarrow> AccountManager \<Rightarrow> nat option \<times> AccountManager" where
  "getNext now m =
     (let accs = map (clearExpired now) (accounts m);
          av = available now m
      in if length av = 0 then (None, m\<lparr>accounts := accs\<rparr>)
         else
           let p = av ! (currentIndex m mod length av)
           in (Some p,
               m\<lparr>accounts := accs[p := (accs ! p)\<lparr>lastUsed := now\<rparr>],
                 currentIndex := currentIndex m + 1\<rparr>))"

definition markRateLimited :: "int \<Rightarrow> nat \<Rightarrow> int \<Rightarrow> AccountManager \<Rightarrow> AccountManager" where
  "markRateLimited now p retryAfterMs m =
     m\<lparr>accounts := (accounts m)[p := (accounts m ! p)
          \<lparr>isRateLimited := True, rateLimitResetTime := now + retryAfterMs\<rparr>]\<rparr>"

definition getMinWaitTime :: "int \<Rightarrow> AccountManager \<Rightarrow> int" where
  "getMinWaitTime now m =
     (let av = filter (eligible now) (accounts m)
      in if length av > 0 then 0
         else
           let waitTimes = map (\<lambda>a. max 0 (rateLimitResetTime a - now))
                             (filter isRateLimited (accounts m))
           in if length waitTimes > 0 then min_list waitTimes else 0)"

definition getAccountCount :: "AccountManager \<Rightarrow> nat" where
  "getAccountCount m = length (accounts m)"

text \<open>Successive calls of \<open>getNext\<close>, one per clock reading, collecting what each returns.\<close>

fun getNextTimes :: "int list \<Rightarrow> AccountManager \<Rightarrow> nat option list \<times> AccountManager" where
  "getNextTimes [] m = ([], m)"
| "getNextTimes (t # ts) m =
     (let (r, m') = getNext t m; (rs, m'') = getNextTimes ts m' in (r # rs, m''))"

text \<open>A pool of three accounts as the constructor builds it: nothing flagged, cursor 0.\<close>

definition freshAccount :: "nat \<Rightarrow> ManagedAccount" where
  "freshAccount i =
     \<lparr>index = i,
      parts = \<lparr>refreshToken = ''r'', projectId = ''p'', managedProjectId = ''''\<rparr>,
      access = None, expires = None,
      isRateLimited = False, rateLimitResetTime = 0, lastUsed = 0\<rparr>"

definition examplePool :: AccountManager where
  "examplePool = \<lparr>accounts = [freshAccount 0, freshAccount 1, freshAccount 2], currentIndex = 0\<rparr>"

text \<open>A pool of one account.\<close>

definition singlePool :: AccountManager where
  "singlePool = \<lparr>accounts = [freshAccount 0], currentIndex = 0\<rparr>"

text \<open>The account at position \<open>p\<close> carries the flag with reset time \<open>R\<close>.\<close>

definition flagged :: "nat \<Rightarrow> int \<Rightarrow> AccountManager \<Rightarrow> bool" where
  "flagged p R m \<longleftrightarrow> p < length (accounts m) \<and> isRateLimited (accounts m ! p)
      \<and> rateLimitResetTime (accounts m ! p) = R"

section \<open>JavaScript strings and HTTP values\<close>

text \<open>
  A JavaScript string is a sequence of UTF-16 code units. \<open>js\<close> writes an ASCII literal
  as such a string.
\<close>

type_synonym jschar = "16 word"

type_synonym jsstring = "jschar list"

definition js :: "string \<Rightarrow> jsstring" where
  "js s = map (\<lambda>c. of_nat (of_char c)) s"

text \<open>
  A \<open>Headers\<close> object is the map from lower-cased header names to values that its
  \<open>get\<close>, \<open>set\<close> and \<open>delete\<close> work on; header values are byte strings. A response body
  is absent, a text (a response built by the plugin), or a stream of byte chunks, delivered
  whole (a stream that fails under way is not modelled). \<open>bodyUsed\<close> tells that the body
  has been read or handed to a pipe: it cannot be read again.
\<close>

type_synonym byte = "8 word"

type_synonym Headers = "string \<rightharpoonup> string"

datatype Body = NullBody | TextBody jsstring | StreamBody "byte list list"

record Response =
  status :: nat
  statusText :: string
  headers :: Headers
  body :: Body
  bodyUsed :: bool

definition ok :: "Response \<Rightarrow> bool" where
  "ok r \<longleftrightarrow> 200 \<le> status r \<and> status r \<le> 299"

datatype JsError = JsError string

text \<open>\<open>s.toLowerCase()\<close> on a byte string of ASCII letters.\<close>

definition toLowerCase :: "string \<Rightarrow> string" where
  "toLowerCase s =
     map (\<lambda>c. if 65 \<le> (of_char c :: nat) \<and> (of_char c :: nat) \<le> 90
              then char_of ((of_char c :: nat) + 32) else c) s"

text \<open>
  What \<open>Headers\<close> does to a value it is given: tabs, spaces, line feeds and carriage
  returns are stripped at both ends, and a value that then holds a NUL, a line feed or a
  carriage return is a TypeError.
\<close>

definition isHttpWhitespace :: "char \<Rightarrow> bool" where
  "isHttpWhitespace c \<longleftrightarrow> of_char c \<in> set [9, 10, 13, 32 :: nat]"

definition normalizeHeaderValue :: "string \<Rightarrow> string" where
  "normalizeHeaderValue v = rev (dropWhile isHttpWhitespace (rev (dropWhile isHttpWhitespace v)))"

definition forbiddenInValue :: "char \<Rightarrow> bool" where
  "forbiddenInValue c \<longleftrightarrow> of_char c \<in> set [0, 10, 13 :: nat]"

text \<open>\<open>headers.set(name, value)\<close>, the name given lower-cased.\<close>

definition headersSet :: "Headers \<Rightarrow> string \<Rightarrow> string \<Rightarrow> JsError + Headers" where
  "headersSet hs name v =
     (let normalized = normalizeHeaderValue v
      in if list_ex forbiddenInValue normalized then Inl (JsError ''TypeError'')
         else Inr (hs(name \<mapsto> normalized)))"

text \<open>A value that \<open>Headers\<close> stores as it is.\<close>

definition legalHeaderValue :: "string \<Rightarrow> bool" where
  "legalHeaderValue v \<longleftrightarrow> normalizeHeaderValue v = v \<and> \<not> list_ex forbiddenInValue v"

text \<open>Sequencing of steps that may throw.\<close>

definition andThen :: "JsError + 'a \<Rightarrow> ('a \<Rightarrow> JsError + 'b) \<Rightarrow> JsError + 'b" where
  "andThen x f = (case x of Inl err \<Rightarrow> Inl err | Inr v \<Rightarrow> f v)"

text \<open>
  A name or value given to \<open>Headers\<close> as a JavaScript string becomes a byte string first,
  a code unit above 255 being a TypeError; a value is then set as \<open>Headers\<close> sets a value.
\<close>

definition byteString :: "jsstring \<Rightarrow> string" where
  "byteString s = map (\<lambda>c. char_of (unat c)) s"

definition toByteString :: "jsstring \<Rightarrow> JsError + string" where
  "toByteString s =
     (if list_all (\<lambda>c. c \<le> 255) s then Inr (byteString s)
      else Inl (JsError ''TypeError''))"

definition setHeader :: "Headers \<Rightarrow> string \<Rightarrow> jsstring \<Rightarrow> JsError + Headers" where
  "setHeader hs name v = andThen (toByteString v) (headersSet hs name)"

text \<open>A JavaScript string that \<open>Headers\<close> takes as a value and stores as it is.\<close>

definition legalHeaderText :: "jsstring \<Rightarrow> bool" where
  "legalHeaderText s \<longleftrightarrow> list_all (\<lambda>c. c \<le> 255) s \<and> legalHeaderValue (byteString s)"

text \<open>The characters of a header name.\<close>

definition isTokenChar :: "char \<Rightarrow> bool" where
  "isTokenChar c \<longleftrightarrow>
     (let n = (of_char c :: nat)
      in (48 \<le> n \<and> n \<le> 57) \<or> (65 \<le> n \<and> n \<le> 90) \<or> (97 \<le> n \<and> n \<le> 122)
         \<or> n \<in> set [33, 35, 36, 37, 38, 39, 42, 43, 45, 46, 94, 95, 96, 124, 126])"

text \<open>
  \<open>new Headers(init)\<close> on the name and value pairs of \<open>init\<close>: each pair is appended; a
  name or value with a code unit above 255, a name that is empty or not a token and a
  value that is not legal are a TypeError; a name that comes again has its values joined
  with a comma and a space.
\<close>

fun appendHeaders :: "(jsstring \<times> jsstring) list \<Rightarrow> Headers \<Rightarrow> JsError + Headers" where
  "appendHeaders [] hs = Inr hs"
| "appendHeaders ((name, v) # rest) hs =
     (case toByteString name of
        Inl err \<Rightarrow> Inl err
      | Inr nameBytes \<Rightarrow>
          (case toByteString v of
             Inl err \<Rightarrow> Inl err
           | Inr valueBytes \<Rightarrow>
               (let normalized = normalizeHeaderValue valueBytes; lower = toLowerCase nameBytes
                in if nameBytes = [] \<or> \<not> list_all isTokenChar nameBytes
                      \<or> list_ex forbiddenInValue normalized
                   then Inl (JsError ''TypeError'')
                   else appendHeaders rest
                          (hs(lower \<mapsto> (case hs lower of
                                            None \<Rightarrow> normalized
                                          | Some old \<Rightarrow> old @ '', '' @ normalized))))))"

definition newHeaders :: "(jsstring \<times> jsstring) list \<Rightarrow> JsError + Headers" where
  "newHeaders init = appendHeaders init Map.empty"

section \<open>Dispatch loop (the \<open>fetch\<close> of the plugin's loader)\<close>

text \<open>JavaScript truthiness of a header value that may be null: a non-empty string.\<close>

definition truthyStr :: "string option \<Rightarrow> bool" where
  "truthyStr v = (case v of None \<Rightarrow> False | Some s \<Rightarrow> s \<noteq> [])"

text \<open>\<open>a || b\<close> on values that are strings or null.\<close>

definition orElse :: "string option \<Rightarrow> string option \<Rightarrow> string option" where
  "orElse a b = (if truthyStr a then a else b)"

text \<open>
  \<open>parseInt(s, 10)\<close>: leading white space is skipped, then an optional sign, then the
  longest run of decimal digits; no digit gives NaN (\<open>None\<close>). The white space characters
  are those of a byte string. The value is exact (the model does not round to a double).
\<close>

definition isStrWhiteSpace :: "char \<Rightarrow> bool" where
  "isStrWhiteSpace c \<longleftrightarrow> of_char c \<in> set [9, 10, 11, 12, 13, 32, 160 :: nat]"

definition isDigit :: "char \<Rightarrow> bool" where
  "isDigit c \<longleftrightarrow> 48 \<le> (of_char c :: nat) \<and> (of_char c :: nat) \<le> 57"

definition digitsValue :: "string \<Rightarrow> int" where
  "digitsValue ds = foldl (\<lambda>acc c. acc * 10 + (int (of_char c) - 48)) 0 ds"

definition parseInt :: "string \<Rightarrow> int option" where
  "parseInt s =
     (let t = dropWhile isStrWhiteSpace s;
          neg = (t \<noteq> [] \<and> hd t = CHR ''-'');
          u = (if t \<noteq> [] \<and> (hd t = CHR ''-'' \<or> hd t = CHR ''+'') then tl t else t);
          ds = takeWhile isDigit u
      in if ds = [] then None
         else Some (if neg then - digitsValue ds else digitsValue ds))"

text \<open>The window computed from the headers of a 429 response.\<close>

definition retryAfterMs :: "Headers \<Rightarrow> int" where
  "retryAfterMs h =
     (let retryAfterHeader = orElse (h ''retry-after-ms'') (h ''retry-after'')
      in case retryAfterHeader of
           None \<Rightarrow> 60000
         | Some v \<Rightarrow>
             if v = [] then 60000
             else
               (case parseInt v of
                  None \<Rightarrow> 60000
                | Some parsed \<Rightarrow>
                    if Some v = h ''retry-after'' then parsed * 1000 else parsed))"

definition shouldRetryEndpoint :: "Response \<Rightarrow> bool" where
  "shouldRetryEndpoint r \<longleftrightarrow> status r = 403 \<or> status r = 404 \<or> status r \<ge> 500"

text \<open>
  What one pass of the endpoint loop's \<open>try\<close> block meets: \<open>prepareAntigravityRequest\<close> and
  \<open>fetch\<close> either produce the upstream response or throw.
\<close>

datatype FetchOutcome = Responded Response | Threw JsError

text \<open>
  How the \<open>for\<close> loop over \<open>ANTIGRAVITY_ENDPOINT_FALLBACKS\<close> ends: with a response to hand
  to \<open>transformAntigravityResponse\<close>, by \<open>break\<close> after a 429, by rethrowing the error of
  the last endpoint, or by running off the end of the list.
\<close>

datatype LoopExit =
    ReturnResponse Response
  | HitRateLimit
  | Rethrow JsError
  | FellThrough "Response option" "JsError option"

record LoopResult =
  exit :: LoopExit
  attempted :: nat
  manager :: AccountManager

text \<open>
  The loop, by recursion on the endpoints still to try. \<open>net i\<close> is what endpoint \<open>i\<close>
  answers when the loop reaches it, \<open>p\<close> the selected account, \<open>now\<close> the clock reading
  of \<open>markRateLimited\<close>. \<open>attempted\<close> counts the endpoints the loop has called.
\<close>

fun endpointLoop ::
  "(nat \<Rightarrow> FetchOutcome) \<Rightarrow> int \<Rightarrow> nat \<Rightarrow> nat \<Rightarrow> string list \<Rightarrow>
   Response option \<Rightarrow> JsError option \<Rightarrow> AccountManager \<Rightarrow> LoopResult" where
  "endpointLoop net now p i [] lastResponse lastError m =
     \<lparr>exit = FellThrough lastResponse lastError, attempted = i, manager = m\<rparr>"
| "endpointLoop net now p i (currentEndpoint # rest) lastResponse lastError m =
     (case net i of
        Responded response \<Rightarrow>
          if status response = 429 then
            \<lparr>exit = HitRateLimit, attempted = i + 1,
             manager = markRateLimited now p (retryAfterMs (headers response)) m\<rparr>
          else if shouldRetryEndpoint response \<and> rest \<noteq> [] then
            endpointLoop net now p (i + 1) rest (Some response) lastError m
          else \<lparr>exit = ReturnResponse response, attempted = i + 1, manager = m\<rparr>
      | Threw error \<Rightarrow>
          if rest \<noteq> [] then endpointLoop net now p (i + 1) rest lastResponse (Some error) m
          else \<lparr>exit = Rethrow error, attempted = i + 1, manager = m\<rparr>)"

text \<open>
  An outcome after which the loop goes on to the next endpoint, when there is one: a 403, a
  404 or a 5xx, or an exception.
\<close>

definition fallbackClass :: "FetchOutcome \<Rightarrow> bool" where
  "fallbackClass outcome =
     (case outcome of
        Responded r \<Rightarrow> status r \<noteq> 429 \<and> shouldRetryEndpoint r
      | Threw err \<Rightarrow> True)"

definition updateAccount ::
  "nat \<Rightarrow> string option \<Rightarrow> int option \<Rightarrow> RefreshParts option \<Rightarrow> AccountManager \<Rightarrow>
   AccountManager" where
  "updateAccount p newAccess newExpires newParts m =
     m\<lparr>accounts := (accounts m)[p := (accounts m ! p)
          \<lparr>parts := (case newParts of None \<Rightarrow> parts (accounts m ! p) | Some x \<Rightarrow> x),
           access := newAccess, expires := newExpires\<rparr>]\<rparr>"

text \<open>
  What one pass of the account loop meets outside the pool: the clock, whether the access
  token counts as expired, what \<open>refreshAccessToken\<close> resolves to (nothing, or the new
  access token, expiry and refresh parts), whether \<open>ensureProjectContext\<close> throws, and what
  the endpoints answer.
\<close>

record AttemptEnv =
  selectTime :: int
  tokenExpired :: bool
  refreshed :: "(string option \<times> int option \<times> RefreshParts) option"
  projectFailure :: "JsError option"
  net :: "nat \<Rightarrow> FetchOutcome"
  markTime :: int

datatype DispatchError =
    AllRateLimited nat int
  | Propagated JsError
  | AllEndpointsFailed
  | NoAccountCompleted

datatype 'r DispatchResult = Resolved 'r | Rejected DispatchError

text \<open>\<open>Math.ceil(ms / 1000)\<close> on an integer number of milliseconds.\<close>

definition ceilSeconds :: "int \<Rightarrow> int" where
  "ceilSeconds ms = - ((- ms) div 1000)"

text \<open>The steps of one pass before the endpoint loop: the access token to use, if any.\<close>

definition credentialStep ::
  "AttemptEnv \<Rightarrow> nat \<Rightarrow> AccountManager \<Rightarrow> string option \<times> AccountManager" where
  "credentialStep e p m =
     (if tokenExpired e then
        (case refreshed e of
           None \<Rightarrow> (None, m)
         | Some (newAccess, newExpires, newParts) \<Rightarrow>
             (newAccess, updateAccount p newAccess newExpires (Some newParts) m))
      else (access (accounts m ! p), m))"

text \<open>
  The \<open>while\<close> loop over account attempts, by recursion on the attempts left;
  \<open>accountAttempts\<close> is the number of the pass. \<open>transform\<close> stands for
  \<open>transformAntigravityResponse\<close> applied with the metadata of the request, and
  \<open>endpoints\<close> for the constant \<open>ANTIGRAVITY_ENDPOINT_FALLBACKS\<close>. The best-effort save of
  the credentials before a response is returned has no part in the result.
\<close>

fun accountLoop ::
  "(Response \<Rightarrow> 'r) \<Rightarrow> string list \<Rightarrow> (nat \<Rightarrow> AttemptEnv) \<Rightarrow> nat \<Rightarrow> nat \<Rightarrow> nat \<Rightarrow>
   AccountManager \<Rightarrow> 'r DispatchResult \<times> AccountManager" where
  "accountLoop transform endpoints envs accountCount 0 accountAttempts m =
     (Rejected NoAccountCompleted, m)"
| "accountLoop transform endpoints envs accountCount (Suc left) accountAttempts m =
     (let e = envs accountAttempts in
      case getNext (selectTime e) m of
        (None, m1) \<Rightarrow>
          (Rejected (AllRateLimited accountCount
             (ceilSeconds (getMinWaitTime (selectTime e) m1))), m1)
      | (Some p, m1) \<Rightarrow>
          (case credentialStep e p m1 of
             (accessToken, m2) \<Rightarrow>
               if \<not> truthyStr accessToken then
                 accountLoop transform endpoints envs accountCount left (accountAttempts + 1) m2
               else
                 (case projectFailure e of
                    Some err \<Rightarrow> (Rejected (Propagated err), m2)
                  | None \<Rightarrow>
                      (let r = endpointLoop (net e) (markTime e) p 0 endpoints None None m2 in
                       case exit r of
                         ReturnResponse response \<Rightarrow> (Resolved (transform response), manager r)
                       | Rethrow err \<Rightarrow> (Rejected (Propagated err), manager r)
                       | HitRateLimit \<Rightarrow>
                           accountLoop transform endpoints envs accountCount left
                             (accountAttempts + 1) (manager r)
                       | FellThrough lastResponse lastError \<Rightarrow>
                           (case lastResponse of
                              Some response \<Rightarrow> (Resolved (transform response), manager r)
                            | None \<Rightarrow>
                                (case lastError of
                                   Some err \<Rightarrow> (Rejected (Propagated err), manager r)
                                 | None \<Rightarrow> (Rejected AllEndpointsFailed, manager r)))))))"

text \<open>The intercepted call on an OAuth-authenticated request to the watched API.\<close>

definition dispatch ::
  "(Response \<Rightarrow> 'r) \<Rightarrow> string list \<Rightarrow> (nat \<Rightarrow> AttemptEnv) \<Rightarrow> AccountManager \<Rightarrow>
   'r DispatchResult \<times> AccountManager" where
  "dispatch transform endpoints envs m =
     accountLoop transform endpoints envs (getAccountCount m) (getAccountCount m) 0 m"

text \<open>A 429 response whose two retry headers carry the same text.\<close>

definition limited429 :: Response where
  "limited429 = \<lparr>status = 429, statusText = ''Too Many Requests'',
     headers = [''retry-after-ms'' \<mapsto> ''15000'', ''retry-after'' \<mapsto> ''15000''],
     body = NullBody, bodyUsed = False\<rparr>"

text \<open>
  Responses and an environment for a run: endpoint 0 answers 404, endpoint 1 answers 503,
  the others 200.
\<close>

definition notFound404 :: Response where
  "notFound404 =
     \<lparr>status = 404, statusText = ''Not Found'', headers = Map.empty, body = NullBody,
      bodyUsed = False\<rparr>"

definition success200 :: Response where
  "success200 =
     \<lparr>status = 200, statusText = ''OK'', headers = Map.empty, body = NullBody,
      bodyUsed = False\<rparr>"

definition unavailable503 :: Response where
  "unavailable503 =
     \<lparr>status = 503, statusText = ''Service Unavailable'', headers = Map.empty, body = NullBody,
      bodyUsed = False\<rparr>"

definition exampleParts :: RefreshParts where
  "exampleParts = \<lparr>refreshToken = ''r'', projectId = ''p'', managedProjectId = ''''\<rparr>"

definition exampleEnv :: AttemptEnv where
  "exampleEnv =
     \<lparr>selectTime = 1000, tokenExpired = True,
      refreshed = Some (Some ''token'', Some 5000, exampleParts),
      projectFailure = None,
      net = (\<lambda>i. if i = 0 then Responded notFound404
                 else if i = 1 then Responded unavailable503 else Responded success200),
      markTime = 1001\<rparr>"

section \<open>String functions\<close>

definition LF :: jschar where
  "LF = 10"

text \<open>The code units that \<open>String.prototype.trim\<close> removes: white space and line ends.\<close>

definition isTrimChar :: "jschar \<Rightarrow> bool" where
  "isTrimChar c \<longleftrightarrow>
     c \<in> set [0x9, 0xA, 0xB, 0xC, 0xD, 0x20, 0xA0, 0x1680, 0x2028, 0x2029, 0x202F, 0x205F,
              0x3000, 0xFEFF]
     \<or> (0x2000 \<le> c \<and> c \<le> 0x200A)"

definition trim :: "jsstring \<Rightarrow> jsstring" where
  "trim s = rev (dropWhile isTrimChar (rev (dropWhile isTrimChar s)))"

definition startsWith :: "jsstring \<Rightarrow> jsstring \<Rightarrow> bool" where
  "startsWith s pre \<longleftrightarrow> take (length pre) s = pre"

text \<open>\<open>s.split("\n")\<close>.\<close>

fun splitLF :: "jsstring \<Rightarrow> jsstring list" where
  "splitLF [] = [[]]"
| "splitLF (c # cs) =
     (if c = LF then [] # splitLF cs
      else (case splitLF cs of [] \<Rightarrow> [[c]] | p # ps \<Rightarrow> (c # p) # ps))"

text \<open>\<open>lines.join("\n")\<close>.\<close>

fun joinLF :: "jsstring list \<Rightarrow> jsstring" where
  "joinLF [] = []"
| "joinLF [l] = l"
| "joinLF (l # ls) = l @ LF # joinLF ls"

text \<open>
  \<open>s.split("\n\n")\<close>: the delimiters are the occurrences of two line feeds found from the
  left, without overlap.
\<close>

fun splitLFLF :: "jsstring \<Rightarrow> jsstring list" where
  "splitLFLF [] = [[]]"
| "splitLFLF [c] = [[c]]"
| "splitLFLF (c # d # cs) =
     (if c = LF \<and> d = LF then [] # splitLFLF cs
      else (case splitLFLF (d # cs) of [] \<Rightarrow> [[c]] | p # ps \<Rightarrow> (c # p) # ps))"

section \<open>JSON values\<close>

text \<open>
  A parsed JSON value. An object is the list of its properties in insertion order, with
  distinct names; a number is kept as the text \<open>String\<close> gives it.
\<close>

datatype json =
    JNull
  | JBool bool
  | JNum jsstring
  | JStr jsstring
  | JArr "json list"
  | JObj "(jsstring \<times> json) list"

text \<open>
  Reading a property that is not one of a prototype: \<open>undefined\<close> (\<open>None\<close>) on anything
  but an object that has it. Reading a property of \<open>null\<close> throws; the callers test for it.
\<close>

definition getProp :: "json \<Rightarrow> jsstring \<Rightarrow> json option" where
  "getProp v name = (case v of JObj ps \<Rightarrow> map_of ps name | _ \<Rightarrow> None)"

text \<open>
  The platform functions and the functions of \<open>request-helpers\<close> that the response path
  calls, as parameters. \<open>JSON.parse\<close> gives \<open>None\<close> where it throws a SyntaxError; the
  helpers may throw. \<open>toJsString\<close> is the conversion of a value to a string that \<open>+\<close> and
  \<open>String\<close> apply. \<open>retryDelayHeaders\<close> stands for the floating-point part of the retry
  block: it matches a duration (digits and dots, then \<open>s\<close>), reads it with \<open>parseFloat\<close> and,
  when the number is positive, gives its ceiling in seconds and in milliseconds as text.
\<close>

record Usage =
  cachedContentTokenCount :: "json option"
  totalTokenCount :: "json option"
  promptTokenCount :: "json option"
  candidatesTokenCount :: "json option"

record Helpers =
  JSON_parse :: "jsstring \<Rightarrow> json option"
  JSON_stringify :: "json \<Rightarrow> jsstring"
  toJsString :: "json \<Rightarrow> jsstring"
  transformThinkingParts :: "json \<Rightarrow> JsError + json"
  extractUsageFromSsePayload :: "jsstring \<Rightarrow> JsError + Usage option"
  parseAntigravityApiBody :: "jsstring \<Rightarrow> JsError + json option"
  rewriteAntigravityPreviewAccessError ::
    "json \<Rightarrow> nat \<Rightarrow> jsstring option \<Rightarrow> JsError + json option"
  extractUsageMetadata :: "json \<Rightarrow> JsError + Usage option"
  retryDelayHeaders :: "jsstring \<Rightarrow> (jsstring \<times> jsstring) option"

section \<open>Streaming transform (src/plugin/cli.ts)\<close>

text \<open>One line of an event, as the \<open>map\<close> callback of \<open>transformStreamingPayload\<close> rewrites it.\<close>

definition transformLine :: "Helpers \<Rightarrow> jsstring \<Rightarrow> jsstring" where
  "transformLine h line =
     (if \<not> startsWith line (js ''data:'') then line
      else
        let json = trim (drop 5 line) in
        if json = [] then line
        else
          (case JSON_parse h json of
             None \<Rightarrow> line
           | Some parsed \<Rightarrow>
               (case getProp parsed (js ''response'') of
                  None \<Rightarrow> line
                | Some response \<Rightarrow>
                    (case transformThinkingParts h response of
                       Inl err \<Rightarrow> line
                     | Inr transformed \<Rightarrow> js ''data: '' @ JSON_stringify h transformed))))"

definition transformStreamingPayload :: "Helpers \<Rightarrow> jsstring \<Rightarrow> jsstring" where
  "transformStreamingPayload h payload = joinLF (map (transformLine h) (splitLF payload))"

text \<open>
  \<open>TextDecoder\<close> in streaming mode is a machine that reads bytes one at a time, keeps a
  state between calls (the bytes of an unfinished character, whether a byte order mark is
  still to be skipped) and emits code units; \<open>decode()\<close> without input ends the stream and
  emits what the pending state stands for. The machine is a parameter.
\<close>

record 'd TextDecoder =
  initial :: 'd
  step :: "'d \<Rightarrow> byte \<Rightarrow> jsstring \<times> 'd"
  finish :: "'d \<Rightarrow> jsstring"

text \<open>\<open>decoder.decode(chunk, { stream: true })\<close> from decoder state \<open>d\<close>.\<close>

fun decode :: "'d TextDecoder \<Rightarrow> 'd \<Rightarrow> byte list \<Rightarrow> jsstring \<times> 'd" where
  "decode dec d [] = ([], d)"
| "decode dec d (b # bs) =
     (let (out1, d1) = step dec d b; (out2, d2) = decode dec d1 bs in (out1 @ out2, d2))"

text \<open>The state the \<open>TransformStream\<close> closes over: the decoder and \<open>buffer\<close>.\<close>

record 'd StreamState =
  decoder :: 'd
  buffer :: jsstring

text \<open>
  \<open>transform(chunk, controller)\<close>: the chunks it enqueues, and the state it leaves.
  \<open>encode\<close> stands for \<open>encoder.encode\<close>.
\<close>

definition transformChunk ::
  "Helpers \<Rightarrow> 'd TextDecoder \<Rightarrow> (jsstring \<Rightarrow> byte list) \<Rightarrow> 'd StreamState \<Rightarrow> byte list \<Rightarrow>
   byte list list \<times> 'd StreamState" where
  "transformChunk h dec encode st chunk =
     (let (text, d) = decode dec (decoder st) chunk;
          events = splitLFLF (buffer st @ text)
      in (map (\<lambda>event. encode (transformStreamingPayload h event @ [LF, LF]))
            (filter (\<lambda>event. trim event \<noteq> []) (butlast events)),
          \<lparr>decoder = d, buffer = last events\<rparr>))"

text \<open>\<open>flush(controller)\<close>: the chunks it enqueues.\<close>

definition flushStream ::
  "Helpers \<Rightarrow> 'd TextDecoder \<Rightarrow> (jsstring \<Rightarrow> byte list) \<Rightarrow> 'd StreamState \<Rightarrow> byte list list" where
  "flushStream h dec encode st =
     (let buf = buffer st @ finish dec (decoder st)
      in if trim buf \<noteq> [] then [encode (transformStreamingPayload h buf)] else [])"

text \<open>The chunks enqueued while the upstream chunks are fed one at a time, then flushed.\<close>

fun feedChunks ::
  "Helpers \<Rightarrow> 'd TextDecoder \<Rightarrow> (jsstring \<Rightarrow> byte list) \<Rightarrow> 'd StreamState \<Rightarrow> byte list list \<Rightarrow>
   byte list list" where
  "feedChunks h dec encode st [] = flushStream h dec encode st"
| "feedChunks h dec encode st (chunk # chunks) =
     (let (out, st') = transformChunk h dec encode st chunk
      in out @ feedChunks h dec encode st' chunks)"

text \<open>\<open>response.body.pipeThrough(transformStream)\<close>: the chunks of the resulting stream.\<close>

definition pipeThrough ::
  "Helpers \<Rightarrow> 'd TextDecoder \<Rightarrow> (jsstring \<Rightarrow> byte list) \<Rightarrow> byte list list \<Rightarrow> byte list list" where
  "pipeThrough h dec encode chunks =
     feedChunks h dec encode \<lparr>decoder = initial dec, buffer = []\<rparr> chunks"

section \<open>Response normalizer (src/plugin/cli.ts)\<close>

text \<open>\<open>s.includes(pattern)\<close>.\<close>

fun includesStr :: "'a list \<Rightarrow> 'a list \<Rightarrow> bool" where
  "includesStr [] pattern = (pattern = [])"
| "includesStr (c # cs) pattern =
     (take (length pattern) (c # cs) = pattern \<or> includesStr cs pattern)"

text \<open>Truthiness of a JSON value, and of a value that may be \<open>undefined\<close>.\<close>

definition truthy :: "json \<Rightarrow> bool" where
  "truthy v =
     (case v of
        JNull \<Rightarrow> False
      | JBool b \<Rightarrow> b
      | JNum n \<Rightarrow> n \<noteq> js ''0''
      | JStr s \<Rightarrow> s \<noteq> []
      | JArr xs \<Rightarrow> True
      | JObj ps \<Rightarrow> True)"

definition truthyOpt :: "json option \<Rightarrow> bool" where
  "truthyOpt v = (case v of None \<Rightarrow> False | Some x \<Rightarrow> truthy x)"

text \<open>Optional chaining \<open>v?.name\<close> on a value that may be \<open>undefined\<close> or \<open>null\<close>.\<close>

definition optProp :: "json option \<Rightarrow> jsstring \<Rightarrow> json option" where
  "optProp v name = (case v of None \<Rightarrow> None | Some x \<Rightarrow> getProp x name)"

text \<open>Assignment to the property of an object: in place when present, else appended.\<close>

fun setProp :: "(jsstring \<times> json) list \<Rightarrow> jsstring \<Rightarrow> json \<Rightarrow> (jsstring \<times> json) list" where
  "setProp [] name v = [(name, v)]"
| "setProp ((k, x) # ps) name v = (if k = name then (k, v) # ps else (k, x) # setProp ps name v)"

text \<open>Decimal text of a number, as \<open>String(n)\<close> and template literals give it.\<close>

fun decimal :: "nat \<Rightarrow> string" where
  "decimal n =
     (if n < 10 then [char_of (48 + n)] else decimal (n div 10) @ [char_of (48 + n mod 10)])"

text \<open>
  \<open>new Response(body, { status, statusText, headers })\<close>: a RangeError for a status
  outside 200..599, a TypeError for a body with a null-body status.
\<close>

definition newResponse :: "Body \<Rightarrow> nat \<Rightarrow> string \<Rightarrow> Headers \<Rightarrow> JsError + Response" where
  "newResponse b st stText hs =
     (if st < 200 \<or> 599 < st then Inl (JsError ''RangeError'')
      else if b \<noteq> NullBody \<and> st \<in> set [204, 205, 304] then Inl (JsError ''TypeError'')
      else Inr \<lparr>status = st, statusText = stText, headers = hs, body = b, bodyUsed = False\<rparr>)"

text \<open>The metadata of the request that the dispatch loop hands over.\<close>

record RequestMeta =
  requestedModel :: "jsstring option"
  usedProjectId :: "jsstring option"
  usedEndpoint :: "jsstring option"
  effectiveModel :: "jsstring option"
  toolDebugMissing :: "nat option"
  toolDebugSummary :: "jsstring option"
  toolDebugPayload :: "jsstring option"

text \<open>\<open>v || fallback\<close> on a string that may be \<open>undefined\<close>.\<close>

definition strOr :: "jsstring option \<Rightarrow> jsstring \<Rightarrow> jsstring" where
  "strOr v fallback = (case v of None \<Rightarrow> fallback | Some s \<Rightarrow> if s = [] then fallback else s)"

definition debugInfo :: "RequestMeta \<Rightarrow> nat \<Rightarrow> Headers \<Rightarrow> jsstring" where
  "debugInfo meta st hs =
     js [CHR 10, CHR 10] @ js ''[Debug Info]'' @
     js [CHR 10] @ js ''Requested Model: '' @ strOr (requestedModel meta) (js ''Unknown'') @
     js [CHR 10] @ js ''Effective Model: '' @ strOr (effectiveModel meta) (js ''Unknown'') @
     js [CHR 10] @ js ''Project: '' @ strOr (usedProjectId meta) (js ''Unknown'') @
     js [CHR 10] @ js ''Endpoint: '' @ strOr (usedEndpoint meta) (js ''Unknown'') @
     js [CHR 10] @ js ''Status: '' @ js (decimal st) @
     js [CHR 10] @ js ''Request ID: '' @ strOr (map_option js (hs ''x-request-id'')) (js ''N/A'') @
     (case toolDebugMissing meta of
        None \<Rightarrow> []
      | Some n \<Rightarrow> js [CHR 10] @ js ''Tool Debug Missing: '' @ js (decimal n)) @
     (case toolDebugSummary meta of
        None \<Rightarrow> []
      | Some s \<Rightarrow> if s = [] then [] else js [CHR 10] @ js ''Tool Debug Summary: '' @ s) @
     (case toolDebugPayload meta of
        None \<Rightarrow> []
      | Some s \<Rightarrow> if s = [] then [] else js [CHR 10] @ js ''Tool Debug Payload: '' @ s)"

text \<open>
  \<open>errorBody.error.message = (errorBody.error.message || "Unknown error") + debugInfo\<close>
  on a truthy \<open>errorBody.error\<close>. The module is strict code: the assignment throws a
  TypeError when \<open>error\<close> is a string, a number or \<open>true\<close>. A property set on an array is
  not part of what \<open>JSON.stringify\<close> writes.
\<close>

definition injectDebugInfo :: "Helpers \<Rightarrow> json \<Rightarrow> jsstring \<Rightarrow> JsError + json" where
  "injectDebugInfo h err info =
     (let newMessage =
            (case getProp err (js ''message'') of
               None \<Rightarrow> js ''Unknown error'' @ info
             | Some old \<Rightarrow>
                 if truthy old
                 then (case old of JStr s \<Rightarrow> s | _ \<Rightarrow> toJsString h old) @ info
                 else js ''Unknown error'' @ info)
      in case err of
           JObj ps \<Rightarrow> Inr (JObj (setProp ps (js ''message'') (JStr newMessage)))
         | JArr xs \<Rightarrow> Inr (JArr xs)
         | _ \<Rightarrow> Inl (JsError ''TypeError''))"

text \<open>
  \<open>details.find(detail => detail['@type'] === '...RetryInfo')\<close>: reading a property of a
  \<open>null\<close> element throws.
\<close>

fun findRetryInfo :: "json list \<Rightarrow> JsError + json option" where
  "findRetryInfo [] = Inr None"
| "findRetryInfo (detail # details) =
     (if detail = JNull then Inl (JsError ''TypeError'')
      else if getProp detail (js ''@type'') = Some (JStr (js ''type.googleapis.com/google.rpc.RetryInfo''))
      then Inr (Some detail)
      else findRetryInfo details)"

text \<open>
  The block that turns a \<open>RetryInfo\<close> detail into retry headers, entered after the debug
  block did not return.
\<close>

definition applyRetryInfo :: "Helpers \<Rightarrow> json \<Rightarrow> Headers \<Rightarrow> JsError + Headers" where
  "applyRetryInfo h errorBody hs =
     (let err = (if errorBody = JNull then None else getProp errorBody (js ''error''));
          details = (case err of None \<Rightarrow> None | Some JNull \<Rightarrow> None
                     | Some e \<Rightarrow> getProp e (js ''details''))
      in case details of
           Some (JArr ds) \<Rightarrow>
             andThen (findRetryInfo ds) (\<lambda>retryInfo.
               case optProp retryInfo (js ''retryDelay'') of
                 None \<Rightarrow> Inr hs
               | Some delay \<Rightarrow>
                   if \<not> truthy delay then Inr hs
                   else
                     (case delay of
                        JStr s \<Rightarrow>
                          (case retryDelayHeaders h s of
                             None \<Rightarrow> Inr hs
                           | Some (retryAfterSec, retryAfterMsText) \<Rightarrow>
                               andThen (setHeader hs ''retry-after'' retryAfterSec) (\<lambda>hs1.
                                 setHeader hs1 ''retry-after-ms'' retryAfterMsText))
                      | _ \<Rightarrow> Inl (JsError ''TypeError'')))
         | _ \<Rightarrow> Inr hs)"

text \<open>\<open>String(v)\<close>, and \<open>v + text\<close> on the left operand: a string as it is.\<close>

definition stringOf :: "Helpers \<Rightarrow> json \<Rightarrow> jsstring" where
  "stringOf h v = (case v of JStr s \<Rightarrow> s | _ \<Rightarrow> toJsString h v)"

text \<open>How the block for a non-success status ends: with a response, or by going on.\<close>

datatype ErrorBlock = Returned Response | Continued Headers

text \<open>
  The block \<open>if (!response.ok)\<close>. A body that is not JSON becomes
  \<open>{ error: { message: text } }\<close>. With a truthy \<open>errorBody.error\<close> the block returns the
  body with the debug text appended to the message, under the headers as they are; the
  retry block comes after that return.
\<close>

definition errorBlock ::
  "Helpers \<Rightarrow> RequestMeta \<Rightarrow> Response \<Rightarrow> jsstring \<Rightarrow> Headers \<Rightarrow> JsError + ErrorBlock" where
  "errorBlock h meta response text hs =
     (let errorBody =
            (case JSON_parse h text of
               Some parsed \<Rightarrow> parsed
             | None \<Rightarrow> JObj [(js ''error'', JObj [(js ''message'', JStr text)])]);
          err = (if errorBody = JNull then None else getProp errorBody (js ''error''));
          retryBlock = andThen (applyRetryInfo h errorBody hs) (\<lambda>hs'. Inr (Continued hs'))
      in case err of
           None \<Rightarrow> retryBlock
         | Some e \<Rightarrow>
             if truthy e then
               andThen (injectDebugInfo h e (debugInfo meta (status response) hs)) (\<lambda>e'.
                 let errorBody' =
                       (case errorBody of
                          JObj ps \<Rightarrow> JObj (setProp ps (js ''error'') e')
                        | other \<Rightarrow> other)
                 in andThen
                      (newResponse (TextBody (JSON_stringify h errorBody'))
                         (status response) (statusText response) hs)
                      (\<lambda>r. Inr (Returned r)))
             else retryBlock)"

text \<open>The token counts of \<open>usage\<close> as response headers.\<close>

definition setCount :: "Helpers \<Rightarrow> string \<Rightarrow> json option \<Rightarrow> Headers \<Rightarrow> JsError + Headers" where
  "setCount h name v hs = (case v of None \<Rightarrow> Inr hs | Some n \<Rightarrow> setHeader hs name (stringOf h n))"

definition usageHeaders :: "Helpers \<Rightarrow> Usage option \<Rightarrow> Headers \<Rightarrow> JsError + Headers" where
  "usageHeaders h usage hs =
     (case usage of
        None \<Rightarrow> Inr hs
      | Some u \<Rightarrow>
          (case cachedContentTokenCount u of
             None \<Rightarrow> Inr hs
           | Some cached \<Rightarrow>
               andThen (setHeader hs ''x-antigravity-cached-content-token-count''
                          (stringOf h cached)) (\<lambda>hs1.
               andThen (setCount h ''x-antigravity-total-token-count''
                          (totalTokenCount u) hs1) (\<lambda>hs2.
               andThen (setCount h ''x-antigravity-prompt-token-count''
                          (promptTokenCount u) hs2) (\<lambda>hs3.
               setCount h ''x-antigravity-candidates-token-count''
                 (candidatesTokenCount u) hs3)))))"

text \<open>
  The body of the \<open>try\<close> block: the path of non-streaming responses and of failed
  streaming responses. \<open>textResult\<close> is what \<open>await response.text()\<close> gives or throws.
\<close>

definition normalizeBuffered ::
  "Helpers \<Rightarrow> RequestMeta \<Rightarrow> Response \<Rightarrow> JsError + jsstring \<Rightarrow> bool \<Rightarrow> bool \<Rightarrow>
   JsError + Response" where
  "normalizeBuffered h meta response textResult streaming isEventStreamResponse =
     andThen textResult (\<lambda>text.
     andThen (if \<not> ok response then errorBlock h meta response text (headers response)
              else Inr (Continued (headers response))) (\<lambda>blk.
       case blk of
         Returned r \<Rightarrow> Inr r
       | Continued hs \<Rightarrow>
           andThen (if streaming \<and> isEventStreamResponse
                    then extractUsageFromSsePayload h text else Inr None) (\<lambda>usageFromSse.
           andThen (if \<not> streaming \<or> \<not> isEventStreamResponse
                    then parseAntigravityApiBody h text else Inr None) (\<lambda>parsed.
           andThen (case parsed of
                      None \<Rightarrow> Inr None
                    | Some p \<Rightarrow>
                        rewriteAntigravityPreviewAccessError h p (status response)
                          (requestedModel meta)) (\<lambda>patched.
           let effectiveBody = (case patched of Some x \<Rightarrow> Some x | None \<Rightarrow> parsed) in
           andThen (case usageFromSse of
                      Some u \<Rightarrow> Inr (Some u)
                    | None \<Rightarrow>
                        (case effectiveBody of
                           None \<Rightarrow> Inr None
                         | Some b \<Rightarrow> extractUsageMetadata h b)) (\<lambda>usage.
           andThen (usageHeaders h usage hs) (\<lambda>hs'.
             case parsed of
               None \<Rightarrow> newResponse (TextBody text) (status response) (statusText response) hs'
             | Some p \<Rightarrow>
                 (case optProp effectiveBody (js ''response'') of
                    Some inner \<Rightarrow>
                      andThen (transformThinkingParts h inner) (\<lambda>transformed.
                        newResponse (TextBody (JSON_stringify h transformed))
                          (status response) (statusText response) hs')
                  | None \<Rightarrow>
                      (case patched of
                         Some x \<Rightarrow>
                           newResponse (TextBody (JSON_stringify h x))
                             (status response) (statusText response) hs'
                       | None \<Rightarrow>
                           newResponse (TextBody text)
                             (status response) (statusText response) hs')))))))))"

definition contentType :: "Response \<Rightarrow> string" where
  "contentType r = (case headers r ''content-type'' of None \<Rightarrow> [] | Some v \<Rightarrow> v)"

definition isJsonResponse :: "Response \<Rightarrow> bool" where
  "isJsonResponse r = includesStr (contentType r) ''application/json''"

definition isEventStreamResponse :: "Response \<Rightarrow> bool" where
  "isEventStreamResponse r = includesStr (contentType r) ''text/event-stream''"

text \<open>\<open>response.body\<close> as the stream of its chunks, when it is not null.\<close>

definition bodyChunks :: "(jsstring \<Rightarrow> byte list) \<Rightarrow> Body \<Rightarrow> byte list list option" where
  "bodyChunks encode b =
     (case b of NullBody \<Rightarrow> None | StreamBody chunks \<Rightarrow> Some chunks | TextBody t \<Rightarrow> Some [encode t])"

text \<open>The text of a delivered stream: its bytes decoded to the end.\<close>

definition decodeAll :: "'d TextDecoder \<Rightarrow> byte list list \<Rightarrow> jsstring" where
  "decodeAll dec chunks =
     (let (text, d) = decode dec (initial dec) (concat chunks) in text @ finish dec d)"

text \<open>
  \<open>await response.text()\<close>: what it resolves to or throws, and the response object
  afterwards. A body that was used already is a TypeError; a null body reads as the empty
  string; reading a body uses it up.
\<close>

definition responseText ::
  "'d TextDecoder \<Rightarrow> (jsstring \<Rightarrow> byte list) \<Rightarrow> Response \<Rightarrow> (JsError + jsstring) \<times> Response" where
  "responseText dec encode r =
     (if bodyUsed r then (Inl (JsError ''TypeError''), r)
      else
        (case bodyChunks encode (body r) of
           None \<Rightarrow> (Inr [], r)
         | Some chunks \<Rightarrow> (Inr (decodeAll dec chunks), r\<lparr>bodyUsed := True\<rparr>)))"

text \<open>The guard of the streaming path.\<close>

definition takesStreamingPath :: "bool \<Rightarrow> Response \<Rightarrow> bool" where
  "takesStreamingPath streaming r \<longleftrightarrow>
     streaming \<and> ok r \<and> isEventStreamResponse r \<and> body r \<noteq> NullBody"

text \<open>
  \<open>transformAntigravityResponse\<close>. \<open>Inl\<close> is a rejected promise: the failure reaches the
  caller. The streaming path pipes the body, which throws when the body is in use. The
  other path reads the body inside the \<open>try\<close> block, and the \<open>catch\<close> returns the
  response object as the reading left it. The calls of the debug logger write a log and
  are left out.
\<close>

definition transformAntigravityResponse ::
  "Helpers \<Rightarrow> 'd TextDecoder \<Rightarrow> (jsstring \<Rightarrow> byte list) \<Rightarrow> Response \<Rightarrow> bool \<Rightarrow> RequestMeta \<Rightarrow>
   JsError + Response" where
  "transformAntigravityResponse h dec encode response streaming meta =
     (if \<not> isJsonResponse response \<and> \<not> isEventStreamResponse response then Inr response
      else if takesStreamingPath streaming response then
        (case bodyChunks encode (body response) of
           Some chunks \<Rightarrow>
             if bodyUsed response then Inl (JsError ''TypeError'')
             else
               newResponse (StreamBody (pipeThrough h dec encode chunks))
                 (status response) (statusText response) (headers response)
         | None \<Rightarrow> Inr response)
      else
        (case responseText dec encode response of
           (textResult, responseAfter) \<Rightarrow>
             (case normalizeBuffered h meta response textResult streaming
                     (isEventStreamResponse response) of
                Inl error \<Rightarrow> Inr responseAfter
              | Inr r \<Rightarrow> Inr r)))"

text \<open>
  An error body with a \<open>RetryInfo\<close> detail of 30 seconds, a 429 response to carry it in
  the chunks of its body, and helpers under which the body parses to it.
\<close>

definition retryInfoBody :: json where
  "retryInfoBody =
     JObj [(js ''error'',
       JObj [(js ''code'', JNum (js ''429'')),
             (js ''message'', JStr (js ''quota'')),
             (js ''details'',
               JArr [JObj [(js ''@type'', JStr (js ''type.googleapis.com/google.rpc.RetryInfo'')),
                           (js ''retryDelay'', JStr (js ''30s''))]])])]"

definition quota429 :: "byte list list \<Rightarrow> Response" where
  "quota429 chunks = \<lparr>status = 429, statusText = ''Too Many Requests'',
     headers = [''content-type'' \<mapsto> ''application/json''], body = StreamBody chunks,
     bodyUsed = False\<rparr>"

definition retryHelpers :: "Helpers \<Rightarrow> Helpers" where
  "retryHelpers h = h\<lparr>JSON_parse := (\<lambda>text. Some retryInfoBody),
     retryDelayHeaders := (\<lambda>delay. Some (js ''30'', js ''30000''))\<rparr>"

text \<open>
  What \<open>fetch\<close> resolves to: a status in 200..599, no body under a null-body status, and
  a body that nobody has read.
\<close>

definition wellFormedUpstream :: "Response \<Rightarrow> bool" where
  "wellFormedUpstream r \<longleftrightarrow>
     200 \<le> status r \<and> status r \<le> 599 \<and> \<not> bodyUsed r
     \<and> (status r \<in> set [204, 205, 304] \<longrightarrow> body r = NullBody)"

text \<open>
  Helpers under which the body parses to \<open>{"error": "quota"}\<close>: an error that is a string.
\<close>

definition stringErrorHelpers :: "Helpers \<Rightarrow> Helpers" where
  "stringErrorHelpers h = h\<lparr>JSON_parse := (\<lambda>text. Some (JObj [(js ''error'', JStr (js ''quota''))]))\<rparr>"

text \<open>The request metadata with every field \<open>undefined\<close>.\<close>

definition noMeta :: RequestMeta where
  "noMeta = \<lparr>requestedModel = None, usedProjectId = None, usedEndpoint = None,
     effectiveModel = None, toolDebugMissing = None, toolDebugSummary = None,
     toolDebugPayload = None\<rparr>"

section \<open>Request translator (src/plugin/cli.ts)\<close>

text \<open>
  URLs and project ids are byte strings; the access token, the header constants and the
  headers of \<open>init\<close> are JavaScript strings, which \<open>Headers\<close> turns into byte strings. The
  input of the intercepted call is a URL string or a \<open>Request\<close> object; a request body is
  absent, a string, or another kind of body, which the translator does not look into.
\<close>

datatype 'q RequestInfo = UrlString string | RequestObject 'q

datatype 'b RequestBody = AbsentBody | StringBody jsstring | OtherBody 'b

text \<open>
  The \<open>init\<close> of the call: its headers as the name and value pairs it gives, its body,
  and its other fields.
\<close>

record 'b RequestInit =
  initHeaders :: "(jsstring \<times> jsstring) list"
  initBody :: "'b RequestBody"
  initOthers :: "(string \<times> jsstring) list"

text \<open>\<open>{ ...init }\<close> and \<open>init?.headers ?? {}\<close> on an \<open>init\<close> that may be \<open>undefined\<close>.\<close>

definition baseInitOf :: "'b RequestInit option \<Rightarrow> 'b RequestInit" where
  "baseInitOf init =
     (case init of
        None \<Rightarrow> \<lparr>initHeaders = [], initBody = AbsentBody, initOthers = []\<rparr>
      | Some i \<Rightarrow> i)"

definition STREAM_ACTION :: string where
  "STREAM_ACTION = ''streamGenerateContent''"

definition isGenerativeLanguageRequest :: "'q RequestInfo \<Rightarrow> bool" where
  "isGenerativeLanguageRequest input =
     (case input of
        UrlString url \<Rightarrow> includesStr url ''generativelanguage.googleapis.com''
      | RequestObject q \<Rightarrow> False)"

text \<open>The class \<open>\w\<close> of the pattern.\<close>

definition isWordChar :: "char \<Rightarrow> bool" where
  "isWordChar c \<longleftrightarrow>
     (let n = (of_char c :: nat)
      in (48 \<le> n \<and> n \<le> 57) \<or> (65 \<le> n \<and> n \<le> 90) \<or> (97 \<le> n \<and> n \<le> 122) \<or> n = 95)"

text \<open>
  The pattern \<open>/models/\<close>, a model, a colon, an action, tried at the head of the text. The
  model is the longest run without a colon (no shorter run is followed by a colon), the
  action the longest run of word characters; both have a character at least.
\<close>

definition matchModelsAt :: "string \<Rightarrow> (string \<times> string) option" where
  "matchModelsAt s =
     (if take 8 s = ''/models/'' then
        (let rest = drop 8 s;
             rawModel = takeWhile (\<lambda>c. c \<noteq> CHR '':'') rest;
             after = dropWhile (\<lambda>c. c \<noteq> CHR '':'') rest
         in if rawModel = [] \<or> after = [] then None
            else
              (let rawAction = takeWhile isWordChar (tl after)
               in if rawAction = [] then None else Some (rawModel, rawAction)))
      else None)"

text \<open>\<open>input.match(...)\<close>: the match that starts leftmost.\<close>

fun matchModels :: "string \<Rightarrow> (string \<times> string) option" where
  "matchModels [] = None"
| "matchModels (c # cs) =
     (case matchModelsAt (c # cs) of Some groups \<Rightarrow> Some groups | None \<Rightarrow> matchModels cs)"

text \<open>\<open>trim\<close> on a byte string, and \<open>parts.join(separator)\<close>.\<close>

definition trimBytes :: "string \<Rightarrow> string" where
  "trimBytes s = rev (dropWhile isStrWhiteSpace (rev (dropWhile isStrWhiteSpace s)))"

fun joinSep :: "'a list \<Rightarrow> 'a list list \<Rightarrow> 'a list" where
  "joinSep separator [] = []"
| "joinSep separator [x] = x"
| "joinSep separator (x # xs) = x @ separator @ joinSep separator xs"

text \<open>The constants \<open>ANTIGRAVITY_HEADERS\<close> and \<open>ANTIGRAVITY_ENDPOINT\<close>, as parameters.\<close>

record Constants =
  userAgent :: jsstring
  xGoogApiClient :: jsstring
  clientMetadata :: jsstring
  ANTIGRAVITY_ENDPOINT :: string

text \<open>
  What the rewriting of a non-empty string body gives: the new body, the project id used,
  and the diagnostics of the tool normalization.
\<close>

record NormalizedBody =
  newBody :: jsstring
  resolvedProjectId :: string
  debugMissing :: nat
  debugSummaries :: "jsstring list"
  debugPayload :: "jsstring option"

text \<open>The \<open>init\<close> that is returned: \<open>{ ...baseInit, headers, body }\<close>.\<close>

record 'b TransformedInit =
  transformedHeaders :: Headers
  transformedBody :: "'b RequestBody"
  transformedOthers :: "(string \<times> jsstring) list"

record ('q, 'b) Prepared =
  preparedRequest :: "'q RequestInfo"
  preparedInit :: "'b TransformedInit"
  preparedStreaming :: bool
  preparedMeta :: RequestMeta

text \<open>
  \<open>prepareAntigravityRequest\<close>. \<open>Inl\<close> is an exception that reaches the caller: a header
  that \<open>Headers\<close> refuses, or what the rewriting of the body throws. The block that parses
  and rewrites a non-empty string body (wrapping, thinking configuration, tools, ids; it
  draws random ids and may throw) is the parameter \<open>normalizeBody\<close>, given the body, the
  model, whether the model is a Claude model, and the project id.
\<close>

definition prepareAntigravityRequest ::
  "Constants \<Rightarrow> (jsstring \<Rightarrow> string \<Rightarrow> bool \<Rightarrow> string \<Rightarrow> JsError + NormalizedBody) \<Rightarrow>
   'q RequestInfo \<Rightarrow> 'b RequestInit option \<Rightarrow> jsstring \<Rightarrow> string \<Rightarrow> string option \<Rightarrow>
   JsError + ('q, 'b) Prepared" where
  "prepareAntigravityRequest consts normalizeBody input init accessToken project
       endpointOverride =
     (let baseInit = baseInitOf init
      in andThen (newHeaders (initHeaders baseInit)) (\<lambda>headers0.
         if \<not> isGenerativeLanguageRequest input then
           Inr \<lparr>preparedRequest = input,
                preparedInit = \<lparr>transformedHeaders = headers0,
                                transformedBody = initBody baseInit,
                                transformedOthers = initOthers baseInit\<rparr>,
                preparedStreaming = False, preparedMeta = noMeta\<rparr>
         else
           andThen (setHeader headers0 ''authorization'' (js ''Bearer '' @ accessToken))
             (\<lambda>headersWithAuth.
           let headers1 = headersWithAuth(''x-api-key'' := None) in
           case (case input of UrlString url \<Rightarrow> matchModels url | RequestObject q \<Rightarrow> None) of
             None \<Rightarrow>
               Inr \<lparr>preparedRequest = input,
                    preparedInit = \<lparr>transformedHeaders = headers1,
                                    transformedBody = initBody baseInit,
                                    transformedOthers = initOthers baseInit\<rparr>,
                    preparedStreaming = False, preparedMeta = noMeta\<rparr>
           | Some (rawModel, rawAction) \<Rightarrow>
               (let isStreaming = (rawAction = STREAM_ACTION);
                    baseEndpoint =
                      (case endpointOverride of
                         Some e \<Rightarrow> e
                       | None \<Rightarrow> ANTIGRAVITY_ENDPOINT consts);
                    transformedUrl =
                      baseEndpoint @ ''/v1internal:'' @ rawAction @
                        (if isStreaming then ''?alt=sse'' else []);
                    isClaudeModel = includesStr (toLowerCase rawModel) ''claude'';
                    untouched = Inr (initBody baseInit, trimBytes project, 0, [], None);
                    normalized =
                      (case initBody baseInit of
                         StringBody s \<Rightarrow>
                           if s \<noteq> [] then
                             (case normalizeBody s rawModel isClaudeModel project of
                                Inl err \<Rightarrow> Inl err
                              | Inr n \<Rightarrow>
                                  Inr (StringBody (newBody n), resolvedProjectId n,
                                       debugMissing n, debugSummaries n, debugPayload n))
                           else untouched
                       | AbsentBody \<Rightarrow> untouched
                       | OtherBody b \<Rightarrow> untouched)
                in andThen normalized (\<lambda>(body', resolved, missing, summaries, payload).
                   andThen (if isStreaming
                            then setHeader headers1 ''accept'' (js ''text/event-stream'')
                            else Inr headers1) (\<lambda>headers2.
                   andThen (setHeader headers2 ''user-agent'' (userAgent consts)) (\<lambda>headers3.
                   andThen (setHeader headers3 ''x-goog-api-client'' (xGoogApiClient consts))
                     (\<lambda>headers4.
                   andThen (setHeader headers4 ''client-metadata'' (clientMetadata consts))
                     (\<lambda>headers5.
                   andThen (if missing > 0
                            then setHeader headers5 ''x-opencode-tools-debug''
                                   (js (decimal missing))
                            else Inr headers5) (\<lambda>headers6.
                     Inr \<lparr>preparedRequest = UrlString transformedUrl,
                          preparedInit = \<lparr>transformedHeaders = headers6,
                                          transformedBody = body',
                                          transformedOthers = initOthers baseInit\<rparr>,
                          preparedStreaming = isStreaming,
                          preparedMeta = \<lparr>requestedModel = Some (js rawModel),
                                          usedProjectId = Some (js resolved),
                                          usedEndpoint = Some (js transformedUrl),
                                          effectiveModel = Some (js rawModel),
                                          toolDebugMissing = Some missing,
                                          toolDebugSummary =
                                            Some (joinSep (js '' | '') (take 20 summaries)),
                                          toolDebugPayload = payload\<rparr>\<rparr>))))))))))"

text \<open>Constants and a URL for a run.\<close>

definition exampleConstants :: Constants where
  "exampleConstants = \<lparr>userAgent = js ''antigravity/1.0'',
     xGoogApiClient = js ''google-cloud-sdk'',
     clientMetadata = js ''ideType=IDE_UNSPECIFIED'',
     ANTIGRAVITY_ENDPOINT = ''https://daily.example''\<rparr>"

definition exampleUrl :: string where
  "exampleUrl =
     ''https://generativelanguage.googleapis.com/v1beta/models/gemini-3-pro-high:generateContent''"

section \<open>Credential-set encoding\<close>










section \<open>Round-robin selection\<close>

lemma available_all:
  assumes "\<forall>a\<in>set (accounts m). eligible now a"
  shows "available now m = [0..<length (accounts m)]"
  using assms by (simp add: available_def)

lemma getNext_all_eligible:
  assumes "\<forall>a\<in>set (accounts m). eligible now a" and "accounts m \<noteq> []"
  shows "getNext now m =
    (Some (currentIndex m mod length (accounts m)),
     m\<lparr>accounts := (map (clearExpired now) (accounts m))
          [currentIndex m mod length (accounts m) :=
             (map (clearExpired now) (accounts m) ! (currentIndex m mod length (accounts m)))
               \<lparr>lastUsed := now\<rparr>],
       currentIndex := currentIndex m + 1\<rparr>)"
  using assms by (simp add: getNext_def available_all Let_def)

lemma eligible_clearExpired: "eligible t a \<Longrightarrow> eligible t (clearExpired now a)"
  by (simp add: eligible_def clearExpired_def)

lemma eligible_lastUsed: "eligible t (a\<lparr>lastUsed := x\<rparr>) = eligible t a"
  by (simp add: eligible_def)

lemma all_update:
  assumes "\<forall>a\<in>set xs. P a" and "P v"
  shows "\<forall>a\<in>set (xs[p := v]). P a"
  using assms set_update_subset_insert[of xs p v] by auto

lemma getNext_all_eligible_keeps:
  assumes "\<forall>a\<in>set (accounts m). eligible now a" and "accounts m \<noteq> []"
    and "\<forall>a\<in>set (accounts m). eligible t a"
  shows "\<forall>a\<in>set (accounts (snd (getNext now m))). eligible t a"
proof -
  let ?accs = "map (clearExpired now) (accounts m)"
  let ?p = "currentIndex m mod length (accounts m)"
  have a: "\<forall>a\<in>set ?accs. eligible t a"
    using assms(3) by (simp add: eligible_clearExpired)
  have "?p < length ?accs" using assms(2) by simp
  then have "eligible t (?accs ! ?p)" using a nth_mem by blast
  then have "eligible t ((?accs ! ?p)\<lparr>lastUsed := now\<rparr>)" by (simp add: eligible_lastUsed)
  with a have "\<forall>a\<in>set (?accs[?p := (?accs ! ?p)\<lparr>lastUsed := now\<rparr>]). eligible t a"
    by (rule all_update)
  then show ?thesis by (simp add: getNext_all_eligible[OF assms(1,2)])
qed

lemma getNextTimes_cursor:
  assumes "\<forall>a\<in>set (accounts m). \<forall>t\<in>set ts. eligible t a" and "accounts m \<noteq> []"
  shows "fst (getNextTimes ts m) =
         map (\<lambda>k. Some ((currentIndex m + k) mod length (accounts m))) [0..<length ts]"
  using assms
proof (induction ts arbitrary: m)
  case Nil
  then show ?case by simp
next
  case (Cons t ts)
  let ?m' = "snd (getNext t m)"
  have e: "\<forall>a\<in>set (accounts m). eligible t a" using Cons.prems(1) by simp
  note g = getNext_all_eligible[OF e Cons.prems(2)]
  have len: "length (accounts ?m') = length (accounts m)" by (simp add: g)
  have ci: "currentIndex ?m' = currentIndex m + 1" by (simp add: g)
  have ne: "accounts ?m' \<noteq> []" using len Cons.prems(2) by (metis length_0_conv)
  have k: "\<forall>a\<in>set (accounts ?m'). \<forall>u\<in>set ts. eligible u a"
  proof (intro ballI)
    fix a u assume a: "a \<in> set (accounts ?m')" and u: "u \<in> set ts"
    have "\<forall>a\<in>set (accounts m). eligible u a" using Cons.prems(1) u by simp
    from getNext_all_eligible_keeps[OF e Cons.prems(2) this] a show "eligible u a" by blast
  qed
  have ih: "fst (getNextTimes ts ?m') =
         map (\<lambda>k. Some ((currentIndex ?m' + k) mod length (accounts ?m'))) [0..<length ts]"
    by (rule Cons.IH[OF k ne])
  have f: "fst (getNext t m) = Some (currentIndex m mod length (accounts m))" by (simp add: g)
  have "fst (getNextTimes (t # ts) m) = fst (getNext t m) # fst (getNextTimes ts ?m')"
    by (simp add: split_beta Let_def)
  also have "\<dots> = Some (currentIndex m mod length (accounts m)) #
      map (\<lambda>k. Some ((currentIndex m + Suc k) mod length (accounts m))) [0..<length ts]"
    by (simp add: f ih len ci)
  also have "\<dots> =
      map (\<lambda>k. Some ((currentIndex m + k) mod length (accounts m))) [0..<length (t # ts)]"
    by (simp add: upt_conv_Cons map_Suc_upt[symmetric] del: upt_Suc)
  finally show ?case .
qed

lemma mod_small_sum:
  assumes "r < (n::nat)" and "x < n"
  shows "(r + x) mod n = (if r + x < n then r + x else r + x - n)"
proof (cases "r + x < n")
  case True then show ?thesis by simp
next
  case False
  then have "(r + x) mod n = (r + x - n) mod n" by (simp add: le_mod_geq)
  moreover have "r + x - n < n" using assms by arith
  ultimately show ?thesis using False by simp
qed

lemma rot_inj:
  assumes "0 < (n::nat)"
  shows "inj_on (\<lambda>k. (c + k) mod n) {0..<n}"
proof (rule inj_onI)
  fix x y assume x: "x \<in> {0..<n}" and y: "y \<in> {0..<n}"
    and e: "(c + x) mod n = (c + y) mod n"
  have r: "c mod n < n" using assms by simp
  have "(c mod n + x) mod n = (c mod n + y) mod n"
    using e by (simp add: mod_add_left_eq)
  then show "x = y"
    using x y r by (simp add: mod_small_sum split: if_splits)
qed

lemma rot_image:
  assumes "0 < (n::nat)"
  shows "(\<lambda>k. (c + k) mod n) ` {0..<n} = {0..<n}"
proof (rule card_subset_eq)
  show "finite {0..<n}" by simp
  show "(\<lambda>k. (c + k) mod n) ` {0..<n} \<subseteq> {0..<n}" using assms by auto
  show "card ((\<lambda>k. (c + k) mod n) ` {0..<n}) = card {0..<n}"
    by (simp add: card_image rot_inj[OF assms])
qed

text \<open>
  Claim C1. In a pool of N accounts that are all eligible at each of N successive calls of
  \<open>getNext\<close> (nobody marks one in between), the k-th call returns the account at position
  \<open>(cursor + k) mod N\<close>: the N calls return N different accounts, every account of the pool
  among them, in the pool's order taken cyclically from the cursor; a pool whose cursor is
  at a multiple of N (a new manager has cursor 0) returns positions \<open>0, 1, ..., N-1\<close>.
\<close>

theorem getNext_round_robin:
  assumes "\<forall>a\<in>set (accounts m). \<forall>t\<in>set ts. eligible t a"
    and "length ts = length (accounts m)"
  shows "fst (getNextTimes ts m) =
           map (\<lambda>k. Some ((currentIndex m + k) mod length (accounts m)))
             [0..<length (accounts m)]
         \<and> distinct (fst (getNextTimes ts m))
         \<and> set (fst (getNextTimes ts m)) = Some ` {0..<length (accounts m)}
         \<and> (currentIndex m mod length (accounts m) = 0 \<longrightarrow>
              fst (getNextTimes ts m) = map Some [0..<length (accounts m)])"
proof (cases "accounts m = []")
  case True
  then show ?thesis using assms(2) by simp
next
  case False
  let ?n = "length (accounts m)"
  let ?f = "\<lambda>k. (currentIndex m + k) mod ?n"
  have n: "0 < ?n" using False by simp
  have r: "fst (getNextTimes ts m) = map (\<lambda>k. Some (?f k)) [0..<?n]"
    using getNextTimes_cursor[OF assms(1) False] assms(2) by simp
  have r': "fst (getNextTimes ts m) = map Some (map ?f [0..<?n])"
    by (simp add: r)
  have d: "distinct (map ?f [0..<?n])"
    using rot_inj[OF n, of "currentIndex m"] by (simp add: distinct_map)
  have d': "distinct (fst (getNextTimes ts m))"
  proof -
    have "inj_on Some (set (map ?f [0..<?n]))" by (rule inj_onI) simp
    with d have "distinct (map Some (map ?f [0..<?n]))" by (subst distinct_map) blast
    then show ?thesis by (simp only: r')
  qed
  have s: "set (fst (getNextTimes ts m)) = Some ` {0..<?n}"
  proof -
    have "set (map Some (map ?f [0..<?n])) = Some ` (?f ` {0..<?n})" by (simp add: image_image)
    then show ?thesis using rot_image[OF n, of "currentIndex m"] by (simp only: r')
  qed
  have z: "fst (getNextTimes ts m) = map Some [0..<?n]" if "currentIndex m mod ?n = 0"
  proof -
    have "?f k = k" if "k < ?n" for k
      using \<open>currentIndex m mod ?n = 0\<close> that by (simp add: mod_add_left_eq[symmetric])
    then show ?thesis unfolding r by simp
  qed
  show ?thesis using r d' s z by blast
qed

theorem getNext_round_robin_witness:
  "list_all (\<lambda>a. list_all (\<lambda>t. eligible t a) [5, 6, 7]) (accounts examplePool)
   \<and> length [5, 6, 7 :: int] = length (accounts examplePool)
   \<and> currentIndex examplePool mod length (accounts examplePool) = 0
   \<and> fst (getNextTimes [5, 6, 7] examplePool) = [Some 0, Some 1, Some 2]"
proof -
  have e: "\<forall>a\<in>set (accounts examplePool). \<forall>t\<in>set [5, 6, 7]. eligible t a"
    by (simp add: examplePool_def freshAccount_def eligible_def)
  have l: "length [5, 6, 7 :: int] = length (accounts examplePool)"
    by (simp add: examplePool_def)
  have c: "currentIndex examplePool mod length (accounts examplePool) = 0"
    by (simp add: examplePool_def)
  have "fst (getNextTimes [5, 6, 7] examplePool) = map Some [0..<length (accounts examplePool)]"
    using getNext_round_robin[OF e l] c by blast
  moreover have "[0..<length (accounts examplePool)] = [0, 1, 2]"
    by (simp add: examplePool_def upt_rec)
  ultimately show ?thesis using e l c by (simp add: list_all_iff)
qed

section \<open>Rate-limit windows\<close>

lemma flagged_markRateLimited:
  "p < length (accounts m) \<Longrightarrow> flagged p (markedAt + d) (markRateLimited markedAt p d m)"
  by (simp add: flagged_def markRateLimited_def)

lemma flagged_available: "flagged p R m \<Longrightarrow> p \<in> set (available now m) \<longleftrightarrow> now > R"
  by (auto simp add: flagged_def available_def eligible_def)

lemma getNext_result_available: "fst (getNext now m) = Some q \<Longrightarrow> q \<in> set (available now m)"
  by (auto simp add: getNext_def Let_def split: if_splits)

lemma flagged_getNext:
  assumes "flagged p R m" and "t \<le> R"
  shows "flagged p R (snd (getNext t m))"
proof -
  let ?accs = "map (clearExpired t) (accounts m)"
  have p: "p < length ?accs" using assms(1) by (simp add: flagged_def)
  have c: "?accs ! p = accounts m ! p"
    using assms by (simp add: flagged_def clearExpired_def)
  have "isRateLimited ((?accs[q := (?accs ! q)\<lparr>lastUsed := t\<rparr>]) ! p)
      \<and> rateLimitResetTime ((?accs[q := (?accs ! q)\<lparr>lastUsed := t\<rparr>]) ! p) = R" for q
  proof (cases "q = p")
    case True
    then show ?thesis using p c assms(1) by (simp add: flagged_def)
  next
    case False
    then show ?thesis using p c assms(1) by (simp add: flagged_def)
  qed
  then show ?thesis
    using p c assms(1) by (simp add: getNext_def Let_def flagged_def)
qed

lemma flagged_getNextTimes:
  assumes "flagged p R m" and "\<forall>t\<in>set ts. t \<le> R"
  shows "flagged p R (snd (getNextTimes ts m)) \<and> Some p \<notin> set (fst (getNextTimes ts m))"
  using assms
proof (induction ts arbitrary: m)
  case Nil
  then show ?case by simp
next
  case (Cons t ts)
  have t: "t \<le> R" using Cons.prems(2) by simp
  have f: "flagged p R (snd (getNext t m))" by (rule flagged_getNext[OF Cons.prems(1) t])
  have n: "fst (getNext t m) \<noteq> Some p"
    using getNext_result_available[of t m p] flagged_available[OF Cons.prems(1), of t] t by auto
  have ih: "flagged p R (snd (getNextTimes ts (snd (getNext t m))))
      \<and> Some p \<notin> set (fst (getNextTimes ts (snd (getNext t m))))"
    using Cons.IH[OF f] Cons.prems(2) by simp
  show ?case using ih n by (simp add: split_beta Let_def)
qed

text \<open>
  Claim C2, as amended. After \<open>markRateLimited(a, d)\<close> at time \<open>markedAt\<close>, through any
  calls of \<open>getNext\<close> made at times \<open>\<le> markedAt + d\<close>: none of them returns \<open>a\<close>, and
  \<open>a\<close> is in the eligible set of a call at time \<open>now\<close> exactly when
  \<open>now > markedAt + d\<close>. At the instant \<open>now = markedAt + d\<close> the account is still
  excluded: the filter tests \<open>Date.now() > rateLimitResetTime\<close>.
\<close>

theorem markRateLimited_window:
  assumes "p < length (accounts m)" and "\<forall>t\<in>set ts. t \<le> markedAt + d"
  shows "Some p \<notin> set (fst (getNextTimes ts (markRateLimited markedAt p d m)))
       \<and> (p \<in> set (available now (snd (getNextTimes ts (markRateLimited markedAt p d m))))
            \<longleftrightarrow> now > markedAt + d)
       \<and> (now \<le> markedAt + d \<longrightarrow>
            fst (getNext now (snd (getNextTimes ts (markRateLimited markedAt p d m)))) \<noteq> Some p)"
proof -
  let ?m = "markRateLimited markedAt p d m"
  have f: "flagged p (markedAt + d) ?m" by (rule flagged_markRateLimited[OF assms(1)])
  note g = flagged_getNextTimes[OF f assms(2)]
  from g have a: "Some p \<notin> set (fst (getNextTimes ts ?m))" by simp
  from g have f': "flagged p (markedAt + d) (snd (getNextTimes ts ?m))" by simp
  have b: "p \<in> set (available now (snd (getNextTimes ts ?m))) \<longleftrightarrow> now > markedAt + d"
    by (rule flagged_available[OF f'])
  have c: "fst (getNext now (snd (getNextTimes ts ?m))) \<noteq> Some p" if "now \<le> markedAt + d"
    using getNext_result_available[of now "snd (getNextTimes ts ?m)" p] b that by auto
  show ?thesis using a b c by blast
qed


theorem markRateLimited_window_witness:
  "0 < length (accounts examplePool)
   \<and> list_all (\<lambda>t. t \<le> 100 + 50) [120, 150 :: int]
   \<and> Some 0 \<notin> set (fst (getNextTimes [120, 150] (markRateLimited 100 0 50 examplePool)))
   \<and> 0 \<in> set (available 151 (snd (getNextTimes [120, 150] (markRateLimited 100 0 50 examplePool))))
   \<and> 0 \<notin> set (available 150 (snd (getNextTimes [120, 150] (markRateLimited 100 0 50 examplePool))))"
proof -
  have p: "0 < length (accounts examplePool)" by (simp add: examplePool_def)
  have t: "\<forall>t\<in>set [120, 150 :: int]. t \<le> 100 + 50" by simp
  show ?thesis
    using markRateLimited_window[OF p t, of 151] markRateLimited_window[OF p t, of 150] p
    by simp
qed

lemma min_list_map_Min:
  assumes "xs \<noteq> []"
  shows "min_list (map f xs) = Min (f ` set xs)"
  using assms by (simp add: min_list_Min)

lemma no_eligible_all_flagged:
  assumes "filter (eligible now) (accounts m) = []"
  shows "filter isRateLimited (accounts m) = accounts m"
    and "\<forall>a\<in>set (accounts m). now \<le> rateLimitResetTime a"
  using assms by (auto simp add: filter_empty_conv eligible_def)

text \<open>
  Claim C3, as amended. \<open>getMinWaitTime\<close> returns 0 if some account is eligible; with no
  eligible account in a non-empty pool it returns the minimum of
  \<open>rateLimitResetTime - now\<close> over the rate-limited accounts; the result is never negative;
  and it is 0 exactly when some account is eligible, or the pool is empty, or a flagged
  account's reset time equals \<open>now\<close> (that account is not yet eligible: the test is strict).
\<close>

theorem getMinWaitTime_spec:
  "((\<exists>a\<in>set (accounts m). eligible now a) \<longrightarrow> getMinWaitTime now m = 0)
   \<and> (\<not> (\<exists>a\<in>set (accounts m). eligible now a) \<and> accounts m \<noteq> [] \<longrightarrow>
        getMinWaitTime now m =
          Min ((\<lambda>a. rateLimitResetTime a - now) ` set (filter isRateLimited (accounts m))))
   \<and> 0 \<le> getMinWaitTime now m
   \<and> (getMinWaitTime now m = 0 \<longleftrightarrow>
        (\<exists>a\<in>set (accounts m). eligible now a) \<or> accounts m = []
        \<or> (\<exists>a\<in>set (accounts m). isRateLimited a \<and> rateLimitResetTime a = now))"
proof (cases "\<exists>a\<in>set (accounts m). eligible now a")
  case True
  then have "filter (eligible now) (accounts m) \<noteq> []" by (simp add: filter_empty_conv)
  then have "getMinWaitTime now m = 0" by (simp add: getMinWaitTime_def)
  then show ?thesis using True by simp
next
  case False
  then have e: "filter (eligible now) (accounts m) = []" by (simp add: filter_empty_conv)
  note fl = no_eligible_all_flagged[OF e]
  show ?thesis
  proof (cases "accounts m = []")
    case True
    then show ?thesis using False by (simp add: getMinWaitTime_def)
  next
    case ne: False
    let ?W = "(\<lambda>a. rateLimitResetTime a - now) ` set (accounts m)"
    have mx: "map (\<lambda>a. max 0 (rateLimitResetTime a - now)) (accounts m)
        = map (\<lambda>a. rateLimitResetTime a - now) (accounts m)"
      using fl(2) by (simp add: max_def)
    have g: "getMinWaitTime now m = Min ?W"
      using e ne by (simp add: getMinWaitTime_def fl(1) mx min_list_map_Min)
    have fin: "finite ?W" and nemp: "?W \<noteq> {}" using ne by simp_all
    have nonneg: "\<forall>w\<in>?W. 0 \<le> w" using fl(2) by auto
    have ge: "0 \<le> Min ?W" using fin nemp nonneg by simp
    have z: "Min ?W = 0 \<longleftrightarrow> (\<exists>a\<in>set (accounts m). rateLimitResetTime a = now)"
    proof
      assume "Min ?W = 0"
      then have "0 \<in> ?W" using Min_in[OF fin nemp] by simp
      then show "\<exists>a\<in>set (accounts m). rateLimitResetTime a = now" by auto
    next
      assume "\<exists>a\<in>set (accounts m). rateLimitResetTime a = now"
      then have "0 \<in> ?W" by force
      then have "Min ?W \<le> 0" using fin by (simp add: Min_le)
      with ge show "Min ?W = 0" by simp
    qed
    have fa: "(\<exists>a\<in>set (accounts m). isRateLimited a \<and> rateLimitResetTime a = now)
        \<longleftrightarrow> (\<exists>a\<in>set (accounts m). rateLimitResetTime a = now)"
      using False by (auto simp add: eligible_def)
    show ?thesis using False ne g ge z fa by (simp add: fl(1))
  qed
qed

theorem getMinWaitTime_spec_witness:
  "getMinWaitTime 120 (markRateLimited 100 0 50 singlePool) = 30
   \<and> getMinWaitTime 151 (markRateLimited 100 0 50 singlePool) = 0
   \<and> getMinWaitTime 150 (markRateLimited 100 0 50 singlePool) = 0"
proof -
  let ?m = "markRateLimited 100 0 50 singlePool"
  have a: "accounts ?m = [(freshAccount 0)\<lparr>isRateLimited := True, rateLimitResetTime := 150\<rparr>]"
    by (simp add: markRateLimited_def singlePool_def)
  have n: "\<not> (\<exists>a\<in>set (accounts ?m). eligible 120 a)" "accounts ?m \<noteq> []"
    by (simp_all add: a eligible_def)
  have y: "\<exists>a\<in>set (accounts ?m). eligible 151 a" by (simp add: a eligible_def)
  have b: "\<exists>a\<in>set (accounts ?m). isRateLimited a \<and> rateLimitResetTime a = 150"
    by (simp add: a)
  have "getMinWaitTime 120 ?m = 30"
    using getMinWaitTime_spec[of ?m 120] n by (simp add: a)
  moreover have "getMinWaitTime 151 ?m = 0"
    using getMinWaitTime_spec[of ?m 151] y by blast
  moreover have "getMinWaitTime 150 ?m = 0"
    using getMinWaitTime_spec[of ?m 150] b by blast
  ultimately show ?thesis by simp
qed

text \<open>
  Claim C3 as stated fails: one account flagged until 150, asked at 150, waits 0 ms although
  no account is eligible.
\<close>

theorem getMinWaitTime_zero_counterexample:
  "\<not> (getMinWaitTime 150 (markRateLimited 100 0 50 singlePool) = 0
        \<longleftrightarrow> (\<exists>a\<in>set (accounts (markRateLimited 100 0 50 singlePool)). eligible 150 a))"
  by (simp add: getMinWaitTime_def markRateLimited_def singlePool_def freshAccount_def eligible_def)

text \<open>
  Claim C2 as stated fails at the boundary: marked at 100 for 50 ms, the account is not in
  the eligible set at 150, and \<open>getNext\<close> returns null.
\<close>

theorem markRateLimited_boundary_counterexample:
  "0 \<notin> set (available (100 + 50) (markRateLimited 100 0 50 singlePool))
   \<and> fst (getNext (100 + 50) (markRateLimited 100 0 50 singlePool)) = None"
  by (simp add: getNext_def available_def markRateLimited_def singlePool_def freshAccount_def eligible_def)

section \<open>Dispatch loop\<close>

lemma parseInt_15000: "parseInt ''15000'' = Some 15000"
  by (simp add: parseInt_def isStrWhiteSpace_def isDigit_def digitsValue_def)

text \<open>
  Claim C5. A 429 response is to give the window of its \<open>retry-after-ms\<close> header in
  milliseconds when that header is present, whatever other headers it carries. The loop
  decides which header it read by comparing the value with that of \<open>retry-after\<close>: on a
  response with \<open>retry-after-ms: 15000\<close> and \<open>retry-after: 15000\<close> the value read from
  \<open>retry-after-ms\<close> is taken for seconds, and the account is marked for 15000000 ms.
\<close>

theorem retry_after_ms_read_as_seconds:
  "retryAfterMs (headers limited429) = 15000000
   \<and> endpointLoop (\<lambda>i. Responded limited429) 1000 0 0 [''daily'', ''autopush'', ''prod''] None None singlePool
       = \<lparr>exit = HitRateLimit, attempted = 1,
          manager = markRateLimited 1000 0 15000000 singlePool\<rparr>
   \<and> rateLimitResetTime (accounts (markRateLimited 1000 0 15000000 singlePool) ! 0) = 1000 + 15000 * 1000"
  by (simp add: retryAfterMs_def limited429_def orElse_def truthyStr_def parseInt_15000
      markRateLimited_def singlePool_def)

lemma attempted_ge: "i \<le> attempted (endpointLoop nt now p i eps lr le m)"
proof (induction eps arbitrary: i lr le)
  case Nil
  then show ?case by simp
next
  case (Cons a eps)
  have "Suc i \<le> attempted (endpointLoop nt now p (Suc i) eps x y m)" for x y
    by (rule Cons.IH)
  then have "i \<le> attempted (endpointLoop nt now p (Suc i) eps x y m)" for x y
    using Suc_leD by blast
  then show ?case by (simp split: FetchOutcome.split)
qed

text \<open>
  While the endpoints answer with fallback-class outcomes the loop goes on, and with an
  endpoint to try it never runs off the end of the list: the code after the loop that
  returns the remembered response is not reached.
\<close>

lemma endpointLoop_advances:
  assumes "\<forall>k<j. fallbackClass (nt (i + k))" and "j < length eps"
  shows "i + j < attempted (endpointLoop nt now p i eps lr le m)"
  using assms
proof (induction eps arbitrary: i j lr le)
  case Nil
  then show ?case by simp
next
  case (Cons a eps)
  show ?case
  proof (cases j)
    case 0
    have "Suc i \<le> attempted (endpointLoop nt now p (Suc i) eps x y m)" for x y
      by (rule attempted_ge)
    then have "i < attempted (endpointLoop nt now p (Suc i) eps x y m)" for x y
      using Suc_le_lessD by blast
    then show ?thesis using 0 by (simp split: FetchOutcome.split)
  next
    case (Suc j')
    have f: "fallbackClass (nt i)" using Cons.prems(1) Suc by force
    have ne: "eps \<noteq> []" using Cons.prems(2) Suc by auto
    have k: "\<forall>k<j'. fallbackClass (nt (Suc i + k))"
      using Cons.prems(1) Suc by (metis Suc_mono add_Suc_right add_Suc)
    have l: "j' < length eps" using Cons.prems(2) Suc by simp
    have "Suc i + j' < attempted (endpointLoop nt now p (Suc i) eps x y m)" for x y
      by (rule Cons.IH[OF k l])
    then show ?thesis
      using f ne Suc by (auto simp add: fallbackClass_def split: FetchOutcome.splits)
  qed
qed

lemma endpointLoop_no_fall_through:
  "eps \<noteq> [] \<Longrightarrow> exit (endpointLoop nt now p i eps lr le m) \<noteq> FellThrough x y"
proof (induction eps arbitrary: i lr le)
  case Nil
  then show ?case by simp
next
  case (Cons a eps)
  then show ?case by (cases "eps = []") (auto split: FetchOutcome.split)
qed

lemma endpointLoop_reached_200:
  assumes "i \<le> j" and "j < attempted (endpointLoop nt now p i eps lr le m)"
    and "nt j = Responded r" and "status r = 200"
  shows "endpointLoop nt now p i eps lr le m =
           \<lparr>exit = ReturnResponse r, attempted = j + 1, manager = m\<rparr>"
  using assms
proof (induction eps arbitrary: i lr le)
  case Nil
  then show ?case by simp
next
  case (Cons a eps)
  show ?case
  proof (cases "i = j")
    case True
    have "\<not> shouldRetryEndpoint r" using Cons.prems(4) by (simp add: shouldRetryEndpoint_def)
    then show ?thesis using True Cons.prems(3,4) by simp
  next
    case False
    then have ij: "Suc i \<le> j" using Cons.prems(1) by simp
    show ?thesis
    proof (cases "nt i")
      case (Responded resp)
      show ?thesis
      proof (cases "status resp \<noteq> 429 \<and> shouldRetryEndpoint resp \<and> eps \<noteq> []")
        case True
        then have eq: "endpointLoop nt now p i (a # eps) lr le m
            = endpointLoop nt now p (Suc i) eps (Some resp) le m"
          using Responded by simp
        show ?thesis
          using Cons.IH[OF ij _ Cons.prems(3,4), of "Some resp" le] Cons.prems(2)
          unfolding eq by simp
      next
        case False
        then have "attempted (endpointLoop nt now p i (a # eps) lr le m) = i + 1"
          using Responded by auto
        then show ?thesis using Cons.prems(2) ij by simp
      qed
    next
      case (Threw err)
      show ?thesis
      proof (cases "eps \<noteq> []")
        case True
        then have eq: "endpointLoop nt now p i (a # eps) lr le m
            = endpointLoop nt now p (Suc i) eps lr (Some err) m"
          using Threw by simp
        show ?thesis
          using Cons.IH[OF ij _ Cons.prems(3,4), of lr "Some err"] Cons.prems(2)
          unfolding eq by simp
      next
        case False
        then have "attempted (endpointLoop nt now p i (a # eps) lr le m) = i + 1"
          using Threw by auto
        then show ?thesis using Cons.prems(2) ij by simp
      qed
    qed
  qed
qed

lemma getNext_Some:
  assumes "getNext now m = (Some p, m1)"
  shows "p < length (accounts m)" and "length (accounts m1) = length (accounts m)"
    and "\<not> isRateLimited (accounts m1 ! p)"
proof -
  let ?accs = "map (clearExpired now) (accounts m)"
  let ?av = "available now m"
  from assms have ne: "?av \<noteq> []" by (auto simp add: getNext_def Let_def split: if_splits)
  from assms ne have p: "p = ?av ! (currentIndex m mod length ?av)"
    by (simp add: getNext_def Let_def)
  have "p \<in> set ?av" unfolding p using ne by simp
  then have pl: "p < length (accounts m)" and pe: "eligible now (accounts m ! p)"
    by (simp_all add: available_def)
  show "p < length (accounts m)" by (rule pl)
  from assms ne have m1: "accounts m1 = ?accs[p := (?accs ! p)\<lparr>lastUsed := now\<rparr>]"
    by (auto simp add: getNext_def Let_def p)
  show "length (accounts m1) = length (accounts m)" by (simp add: m1)
  show "\<not> isRateLimited (accounts m1 ! p)"
    using pl pe by (simp add: m1 clearExpired_def eligible_def)
qed

lemma credentialStep_keeps:
  assumes "credentialStep e p m1 = (tok, m2)" and "p < length (accounts m1)"
  shows "isRateLimited (accounts m2 ! p) = isRateLimited (accounts m1 ! p)"
  using assms
  by (auto simp add: credentialStep_def updateAccount_def split: if_splits option.splits)

text \<open>
  Claim C6. In a pass of the account loop that reaches the endpoints, the first fallback
  endpoint answers 404 (or 403, or a 5xx) and a later endpoint \<open>j\<close> answers 200, the
  endpoints between them, if any, answering with a 403, a 404, a 5xx or an exception. Then
  the endpoint loop goes on past each failure, calls \<open>j + 1\<close> endpoints, stops at \<open>j\<close> and
  leaves the pool as it was; the account loop, and with it the intercepted call, resolves
  to the normalized response of endpoint \<open>j\<close>, and the selected account carries no
  rate-limit flag.
\<close>

theorem fallback_then_success:
  assumes "getNext (selectTime (envs k)) m = (Some p, m1)"
    and "credentialStep (envs k) p m1 = (accessToken, m2)"
    and "truthyStr accessToken"
    and "projectFailure (envs k) = None"
    and "net (envs k) 0 = Responded failure"
    and "status failure = 404 \<or> status failure = 403 \<or> 500 \<le> status failure"
    and "0 < j"
    and "j < length endpoints"
    and "\<forall>i. 0 < i \<and> i < j \<longrightarrow> fallbackClass (net (envs k) i)"
    and "net (envs k) j = Responded success"
    and "status success = 200"
  shows "endpointLoop (net (envs k)) (markTime (envs k)) p 0 endpoints None None m2
           = \<lparr>exit = ReturnResponse success, attempted = j + 1, manager = m2\<rparr>
         \<and> accountLoop transform endpoints envs accountCount (Suc left) k m
           = (Resolved (transform success), m2)
         \<and> (k = 0 \<longrightarrow>
              dispatch transform endpoints envs m = (Resolved (transform success), m2))
         \<and> \<not> isRateLimited (accounts m2 ! p)"
proof -
  let ?e = "envs k"
  have f0: "fallbackClass (net ?e 0)"
    using assms(5,6) by (auto simp add: fallbackClass_def shouldRetryEndpoint_def)
  have fc: "\<forall>i<j. fallbackClass (net ?e (0 + i))"
  proof (intro allI impI)
    fix i assume "i < j"
    then show "fallbackClass (net ?e (0 + i))"
      using f0 assms(9) by (cases "i = 0") auto
  qed
  have reached: "j < attempted (endpointLoop (net ?e) (markTime ?e) p 0 endpoints None None m2)"
    using endpointLoop_advances[OF fc assms(8), of "markTime ?e" p None None m2] by simp
  have l: "endpointLoop (net ?e) (markTime ?e) p 0 endpoints None None m2
           = \<lparr>exit = ReturnResponse success, attempted = j + 1, manager = m2\<rparr>"
    by (rule endpointLoop_reached_200[OF _ reached assms(10,11)]) simp
  note g = getNext_Some[OF assms(1)]
  have n: "getAccountCount m = Suc (getAccountCount m - 1)"
    using g(1) by (simp add: getAccountCount_def)
  have a: "accountLoop transform endpoints envs c (Suc n') k m
      = (Resolved (transform success), m2)" for c n'
    using assms(1,2,3,4) l by simp
  have d: "dispatch transform endpoints envs m = (Resolved (transform success), m2)" if "k = 0"
    unfolding dispatch_def using a that by (subst (2) n) blast
  have f: "\<not> isRateLimited (accounts m2 ! p)"
    using credentialStep_keeps[OF assms(2)] g by simp
  show ?thesis using l a d f by simp
qed

theorem fallback_then_success_witness:
  "dispatch (\<lambda>r. r) [''daily'', ''autopush'', ''prod''] (\<lambda>k. exampleEnv) examplePool
     = (Resolved success200,
        updateAccount 0 (Some ''token'') (Some 5000) (Some exampleParts)
          (snd (getNext 1000 examplePool)))
   \<and> attempted (endpointLoop (net exampleEnv) 1001 0 0 [''daily'', ''autopush'', ''prod''] None None
        (updateAccount 0 (Some ''token'') (Some 5000) (Some exampleParts)
          (snd (getNext 1000 examplePool)))) = 3
   \<and> net exampleEnv 0 = Responded notFound404
   \<and> net exampleEnv 1 = Responded unavailable503
   \<and> net exampleEnv 2 = Responded success200"
proof -
  let ?m1 = "snd (getNext 1000 examplePool)"
  let ?m2 = "updateAccount 0 (Some ''token'') (Some 5000) (Some exampleParts) ?m1"
  let ?eps = "[''daily'', ''autopush'', ''prod'']"
  have e: "\<forall>a\<in>set (accounts examplePool). eligible 1000 a"
    by (simp add: examplePool_def freshAccount_def eligible_def)
  have ne: "accounts examplePool \<noteq> []" by (simp add: examplePool_def)
  have "fst (getNext 1000 examplePool) = Some 0"
    by (simp add: getNext_all_eligible[OF e ne]) (simp add: examplePool_def)
  then have a1: "getNext (selectTime exampleEnv) examplePool = (Some 0, ?m1)"
    by (simp add: exampleEnv_def prod_eq_iff)
  have a2: "credentialStep exampleEnv 0 ?m1 = (Some ''token'', ?m2)"
    by (simp add: credentialStep_def exampleEnv_def)
  have a3: "truthyStr (Some ''token'')" by (simp add: truthyStr_def)
  have a4: "projectFailure exampleEnv = None" by (simp add: exampleEnv_def)
  have a5: "net exampleEnv 0 = Responded notFound404" by (simp add: exampleEnv_def)
  have a6: "status notFound404 = 404 \<or> status notFound404 = 403 \<or> 500 \<le> status notFound404"
    by (simp add: notFound404_def)
  have a7: "0 < (2::nat)" by simp
  have a8: "2 < length ?eps" by simp
  have n1: "net exampleEnv 1 = Responded unavailable503" by (simp add: exampleEnv_def)
  have "fallbackClass (Responded unavailable503)"
    by (simp add: fallbackClass_def shouldRetryEndpoint_def unavailable503_def)
  then have "fallbackClass (net exampleEnv 1)" by (simp only: n1)
  moreover have "i = 1" if "0 < i \<and> i < 2" for i :: nat using that by arith
  ultimately have a9: "\<forall>i. 0 < i \<and> i < 2 \<longrightarrow> fallbackClass (net exampleEnv i)" by metis
  have a10: "net exampleEnv 2 = Responded success200" by (simp add: exampleEnv_def)
  have a11: "status success200 = 200" by (simp add: success200_def)
  note t = fallback_then_success[of "\<lambda>k. exampleEnv" 0 examplePool 0 ?m1 "Some ''token''" ?m2
        notFound404 2 ?eps success200 "\<lambda>r. r",
        OF a1 a2 a3 a4 a5 a6 a7 a8 a9 a10 a11]
  have "attempted (endpointLoop (net exampleEnv) (markTime exampleEnv) 0 0 ?eps None None ?m2) = 3"
    using t by simp
  then show ?thesis using t a5 n1 a10 by (simp add: exampleEnv_def)
qed

section \<open>Chunk-boundary invariance of the streaming transform\<close>

lemma splitLFLF_ne: "splitLFLF s \<noteq> []"
  by (induction s rule: splitLFLF.induct) (auto split: list.splits)

lemma splitLFLF_single: "splitLFLF s = [p] \<Longrightarrow> p = s"
proof (induction s arbitrary: p rule: splitLFLF.induct)
  case 1
  then show ?case by simp
next
  case (2 c)
  then show ?case by simp
next
  case (3 c d cs)
  show ?case
  proof (cases "c = LF \<and> d = LF")
    case True
    then show ?thesis using "3.prems" splitLFLF_ne[of cs] by simp
  next
    case False
    obtain q qs where q: "splitLFLF (d # cs) = q # qs"
      using splitLFLF_ne[of "d # cs"] by (cases "splitLFLF (d # cs)") auto
    with False "3.prems" have "qs = []" and "p = c # q" by auto
    with "3.IH"(2)[OF False, of q] q show ?thesis by simp
  qed
qed

lemma splitLFLF_append:
  "splitLFLF (x @ t) = butlast (splitLFLF x) @ splitLFLF (last (splitLFLF x) @ t)"
proof (induction x rule: splitLFLF.induct)
  case 1
  then show ?case by simp
next
  case (2 c)
  then show ?case by simp
next
  case (3 c d cs)
  show ?case
  proof (cases "c = LF \<and> d = LF")
    case True
    then show ?thesis using "3.IH"(1) splitLFLF_ne[of cs] by simp
  next
    case False
    obtain q qs where q: "splitLFLF (d # cs) = q # qs"
      using splitLFLF_ne[of "d # cs"] by (cases "splitLFLF (d # cs)") auto
    have x: "splitLFLF (c # d # cs) = (c # q) # qs" using False q by auto
    have ih: "splitLFLF (d # cs @ t) = butlast (q # qs) @ splitLFLF (last (q # qs) @ t)"
      using "3.IH"(2)[OF False] q by simp
    have l: "splitLFLF (c # d # cs @ t) =
        (case splitLFLF (d # cs @ t) of [] \<Rightarrow> [[c]] | p # ps \<Rightarrow> (c # p) # ps)"
      using False by auto
    show ?thesis
    proof (cases "qs = []")
      case True
      then have "q = d # cs" using splitLFLF_single q by blast
      then show ?thesis using True x l by simp
    next
      case ne: False
      then show ?thesis using x l ih by simp
    qed
  qed
qed

lemma splitLFLF_last: "splitLFLF (last (splitLFLF x)) = [last (splitLFLF x)]"
proof -
  have "butlast (splitLFLF x) @ splitLFLF (last (splitLFLF x))
      = butlast (splitLFLF x) @ [last (splitLFLF x)]"
    using splitLFLF_append[of x "[]"] splitLFLF_ne[of x] by simp
  then show ?thesis by simp
qed

lemma decode_append:
  "decode dec d (a @ b) =
     (fst (decode dec d a) @ fst (decode dec (snd (decode dec d a)) b),
      snd (decode dec (snd (decode dec d a)) b))"
  by (induction a arbitrary: d) (simp_all add: split_beta)

lemma transformChunk_append:
  "transformChunk h dec encode st (a @ b) =
     (fst (transformChunk h dec encode st a)
        @ fst (transformChunk h dec encode (snd (transformChunk h dec encode st a)) b),
      snd (transformChunk h dec encode (snd (transformChunk h dec encode st a)) b))"
proof -
  let ?o1 = "fst (decode dec (decoder st) a)"
  let ?d1 = "snd (decode dec (decoder st) a)"
  let ?o2 = "fst (decode dec ?d1 b)"
  let ?E1 = "splitLFLF (buffer st @ ?o1)"
  let ?E2 = "splitLFLF (last ?E1 @ ?o2)"
  have e: "splitLFLF (buffer st @ ?o1 @ ?o2) = butlast ?E1 @ ?E2"
    using splitLFLF_append[of "buffer st @ ?o1" ?o2] by simp
  have b: "butlast (butlast ?E1 @ ?E2) = butlast ?E1 @ butlast ?E2"
    using splitLFLF_ne by (simp add: butlast_append)
  have l: "last (butlast ?E1 @ ?E2) = last ?E2"
    using splitLFLF_ne by simp
  show ?thesis
    by (simp add: transformChunk_def decode_append split_beta Let_def e b l)
qed

lemma transformChunk_empty:
  assumes "splitLFLF (buffer st) = [buffer st]"
  shows "transformChunk h dec encode st [] = ([], st)"
  using assms by (simp add: transformChunk_def)

lemma transformChunk_buffer:
  "splitLFLF (buffer (snd (transformChunk h dec encode st c)))
     = [buffer (snd (transformChunk h dec encode st c))]"
  by (simp add: transformChunk_def split_beta Let_def splitLFLF_last)

lemma feedChunks_concat:
  assumes "splitLFLF (buffer st) = [buffer st]"
  shows "feedChunks h dec encode st chunks = feedChunks h dec encode st [concat chunks]"
  using assms
proof (induction chunks arbitrary: st)
  case Nil
  then show ?case by (simp add: transformChunk_empty)
next
  case (Cons c cs)
  let ?st1 = "snd (transformChunk h dec encode st c)"
  have "feedChunks h dec encode ?st1 cs = feedChunks h dec encode ?st1 [concat cs]"
    by (rule Cons.IH[OF transformChunk_buffer])
  then show ?case
    by (simp add: split_beta transformChunk_append)
qed

text \<open>
  Claim C8. Whatever the decoder machine, the helpers and the encoder, and however the
  upstream bytes are cut into chunks (inside a line, a frame or a character), the transform
  stream enqueues the same chunks as when the whole body arrives as one chunk; so the
  concatenated outputs are equal.
\<close>

theorem chunk_boundary_invariance:
  "pipeThrough h dec encode chunks = pipeThrough h dec encode [concat chunks]
   \<and> concat (pipeThrough h dec encode chunks) = concat (pipeThrough h dec encode [concat chunks])"
  by (simp add: pipeThrough_def feedChunks_concat[of "\<lparr>decoder = initial dec, buffer = []\<rparr>"])

section \<open>Response normalizer\<close>

lemma quota_json:
  "isJsonResponse (quota429 chunks)" "\<not> takesStreamingPath False (quota429 chunks)"
  "\<not> ok (quota429 chunks)"
  by (simp_all add: isJsonResponse_def contentType_def quota429_def takesStreamingPath_def ok_def)

lemma quota_text:
  "responseText dec encode (quota429 chunks)
     = (Inr (decodeAll dec chunks), (quota429 chunks)\<lparr>bodyUsed := True\<rparr>)"
  by (simp add: responseText_def quota429_def bodyChunks_def)

lemma retry_err: "getProp retryInfoBody (js ''error'') = Some (JObj [(js ''code'', JNum (js ''429'')),
             (js ''message'', JStr (js ''quota'')),
             (js ''details'',
               JArr [JObj [(js ''@type'', JStr (js ''type.googleapis.com/google.rpc.RetryInfo'')),
                           (js ''retryDelay'', JStr (js ''30s''))]])])"
  by (simp add: getProp_def retryInfoBody_def)

text \<open>
  Claim C7. A non-success response whose error body carries a \<open>RetryInfo\<close> detail with
  \<open>retryDelay\<close> \<open>30s\<close> is to come back with \<open>Retry-After\<close> and \<open>retry-after-ms\<close> headers.
  The block that sets them follows the debug block, which returns whenever
  \<open>errorBody.error\<close> is truthy; the returned response has the upstream headers, without
  either retry header.
\<close>

theorem retry_info_headers_not_set:
  "\<exists>r. transformAntigravityResponse (retryHelpers h) dec encode (quota429 chunks) False meta = Inr r
       \<and> status r = 429
       \<and> headers r = headers (quota429 chunks)
       \<and> headers r ''retry-after'' = None
       \<and> headers r ''retry-after-ms'' = None"
proof -
  let ?text = "decodeAll dec chunks"
  let ?q = "quota429 chunks"
  have nn: "retryInfoBody \<noteq> JNull" by (simp add: retryInfoBody_def)
  have p: "JSON_parse (retryHelpers h) ?text = Some retryInfoBody" by (simp add: retryHelpers_def)
  have eb: "\<exists>b. errorBlock (retryHelpers h) meta ?q ?text (headers ?q)
      = Inr (Returned \<lparr>status = 429, statusText = statusText ?q,
               headers = headers ?q, body = b, bodyUsed = False\<rparr>)"
    by (simp add: errorBlock_def p retry_err nn truthy_def injectDebugInfo_def andThen_def
        newResponse_def Let_def quota429_def)
  then obtain b where b: "errorBlock (retryHelpers h) meta ?q ?text (headers ?q)
      = Inr (Returned \<lparr>status = 429, statusText = statusText ?q,
               headers = headers ?q, body = b, bodyUsed = False\<rparr>)" by blast
  have "transformAntigravityResponse (retryHelpers h) dec encode ?q False meta
      = Inr \<lparr>status = 429, statusText = statusText ?q, headers = headers ?q, body = b,
             bodyUsed = False\<rparr>"
    by (simp add: transformAntigravityResponse_def quota_json quota_text normalizeBuffered_def
        andThen_def b)
  moreover have "headers ?q ''retry-after'' = None" "headers ?q ''retry-after-ms'' = None"
    by (simp_all add: quota429_def)
  ultimately show ?thesis by simp
qed

text \<open>
  The retry block needs \<open>errorBody.error.details\<close>, so a truthy \<open>errorBody.error\<close>; it is
  entered only when \<open>errorBody.error\<close> is falsy. It never changes the headers.
\<close>

lemma retry_block_unreachable:
  assumes "\<not> truthyOpt (if errorBody = JNull then None else getProp errorBody (js ''error''))"
  shows "applyRetryInfo h errorBody hs = Inr hs"
  using assms
  by (auto simp add: applyRetryInfo_def truthyOpt_def truthy_def getProp_def Let_def
      split: option.splits json.splits if_splits)

lemma errorBlock_keeps_headers:
  "(errorBlock h meta response text hs = Inr (Continued hs') \<longrightarrow> hs' = hs)
   \<and> (errorBlock h meta response text hs = Inr (Returned r) \<longrightarrow> headers r = hs)"
proof -
  let ?errorBody = "case JSON_parse h text of Some parsed \<Rightarrow> parsed
     | None \<Rightarrow> JObj [(js ''error'', JObj [(js ''message'', JStr text)])]"
  let ?err = "if ?errorBody = JNull then None else getProp ?errorBody (js ''error'')"
  show ?thesis
  proof (cases "truthyOpt ?err")
    case True
    then obtain e where e: "?err = Some e" "truthy e"
      by (auto simp add: truthyOpt_def split: option.splits)
    show ?thesis
      using e by (auto simp add: errorBlock_def Let_def andThen_def newResponse_def
          split: sum.splits if_splits)
  next
    case False
    have r: "applyRetryInfo h ?errorBody hs = Inr hs"
      by (rule retry_block_unreachable[OF False])
    show ?thesis
      using False r
      by (auto simp add: errorBlock_def Let_def andThen_def truthyOpt_def split: option.splits)
  qed
qed

text \<open>
  On every response that \<open>fetch\<close> can resolve to, whatever the helpers do, the call
  resolves: no failure of the normalization reaches the caller.
\<close>

lemma transform_resolves:
  assumes w: "wellFormedUpstream response"
  shows "\<exists>r. transformAntigravityResponse h dec encode response streaming meta = Inr r"
proof (cases "takesStreamingPath streaming response")
  case True
  then have "body response \<noteq> NullBody" by (simp add: takesStreamingPath_def)
  with w have s: "status response \<notin> set [204, 205, 304]"
    "200 \<le> status response" "status response \<le> 599" "\<not> bodyUsed response"
    by (auto simp add: wellFormedUpstream_def)
  then have "\<exists>r. newResponse bd (status response) st hs = Inr r" for bd st hs
    by (simp add: newResponse_def)
  then show ?thesis
    using True s(4) by (simp add: transformAntigravityResponse_def split: option.splits)
next
  case False
  then show ?thesis
    by (auto simp add: transformAntigravityResponse_def split: sum.splits prod.splits)
qed

text \<open>
  When the body of the \<open>try\<close> block throws, the \<open>catch\<close> returns the response object it
  was given, in the state in which \<open>await response.text()\<close> left it: the same status,
  status text, headers and body, and the body marked as used unless it is null.
\<close>

lemma catch_returns_response_as_read:
  assumes "isJsonResponse response \<or> isEventStreamResponse response"
    and "\<not> takesStreamingPath streaming response"
    and "normalizeBuffered h meta response (fst (responseText dec encode response)) streaming
           (isEventStreamResponse response) = Inl err"
  shows "transformAntigravityResponse h dec encode response streaming meta
           = Inr (response\<lparr>bodyUsed := bodyUsed response \<or> body response \<noteq> NullBody\<rparr>)"
  using assms
  by (auto simp add: transformAntigravityResponse_def responseText_def bodyChunks_def
      split: Body.splits prod.splits)

text \<open>
  Claim C9. When the normalization throws, \<open>transformAntigravityResponse\<close> is to return
  the upstream response unmodified. The \<open>catch\<close> returns the response object, but after
  \<open>await response.text()\<close> has read its body. On a 429 response with the JSON body
  \<open>{"error": "quota"}\<close> the assignment of the message to the string \<open>error\<close> throws; the
  call resolves to the upstream response with its body used up, which is not the response
  as it was given: reading the body of the returned response throws, where reading the
  body of the given response gives its text.
\<close>

theorem normalization_failure_returns_drained_response:
  "transformAntigravityResponse (stringErrorHelpers h) dec encode (quota429 chunks) False meta
     = Inr ((quota429 chunks)\<lparr>bodyUsed := True\<rparr>)
   \<and> transformAntigravityResponse (stringErrorHelpers h) dec encode (quota429 chunks) False meta
     \<noteq> Inr (quota429 chunks)
   \<and> fst (responseText dec encode (quota429 chunks)) = Inr (decodeAll dec chunks)
   \<and> fst (responseText dec encode ((quota429 chunks)\<lparr>bodyUsed := True\<rparr>))
     = Inl (JsError ''TypeError'')"
proof -
  let ?text = "decodeAll dec chunks"
  let ?q = "quota429 chunks"
  have p: "JSON_parse (stringErrorHelpers h) ?text = Some (JObj [(js ''error'', JStr (js ''quota''))])"
    by (simp add: stringErrorHelpers_def)
  have q: "js ''quota'' \<noteq> []" by (simp add: js_def)
  have e: "errorBlock (stringErrorHelpers h) meta ?q ?text (headers ?q) = Inl (JsError ''TypeError'')"
    by (simp add: errorBlock_def p getProp_def truthy_def q injectDebugInfo_def andThen_def Let_def)
  have n: "normalizeBuffered (stringErrorHelpers h) meta ?q (Inr ?text) False
       (isEventStreamResponse ?q) = Inl (JsError ''TypeError'')"
    by (simp add: normalizeBuffered_def andThen_def quota_json e)
  have t: "transformAntigravityResponse (stringErrorHelpers h) dec encode ?q False meta
     = Inr (?q\<lparr>bodyUsed := True\<rparr>)"
    by (simp add: transformAntigravityResponse_def quota_json quota_text n)
  have d: "?q\<lparr>bodyUsed := True\<rparr> \<noteq> ?q"
    by (simp add: quota429_def)
  have r1: "fst (responseText dec encode ?q) = Inr ?text" by (simp add: quota_text)
  have r2: "fst (responseText dec encode (?q\<lparr>bodyUsed := True\<rparr>)) = Inl (JsError ''TypeError'')"
    by (simp add: responseText_def)
  show ?thesis using t d r1 r2 by simp
qed

section \<open>Request translator\<close>

text \<open>An ASCII literal is a byte string, the one it is written as.\<close>

lemma unat_js_char: "unat (of_nat (of_char c) :: 16 word) = of_char c"
proof -
  have "(of_char c :: nat) < 256" by simp
  then have "(of_char c :: nat) < 65536" by linarith
  then show ?thesis by (simp add: unat_of_nat)
qed

lemma byteString_js: "byteString (js s) = s"
  by (induction s) (simp_all add: byteString_def js_def unat_js_char)

lemma js_bytes: "list_all (\<lambda>c. c \<le> 255) (js s)"
proof (induction s)
  case Nil
  show ?case by (simp add: js_def)
next
  case (Cons c s)
  have "(of_char c :: nat) < 256" by simp
  then have "(of_char c :: nat) \<le> 255" by linarith
  then have "(of_nat (of_char c) :: 16 word) \<le> 255"
    by (simp add: word_le_nat_alt unat_js_char)
  with Cons show ?case by (simp add: js_def)
qed

lemma byteString_append: "byteString (a @ b) = byteString a @ byteString b"
  by (simp add: byteString_def)

text \<open>A string that \<open>Headers\<close> accepts and keeps as it is, is set as it is.\<close>

lemma setHeader_legal:
  assumes "legalHeaderText s"
  shows "setHeader hs name s = Inr (hs(name \<mapsto> byteString s))"
  using assms
  by (simp add: setHeader_def toByteString_def legalHeaderText_def headersSet_def
      legalHeaderValue_def andThen_def Let_def)

lemma literal_legal:
  assumes "legalHeaderValue s"
  shows "legalHeaderText (js s)"
  using assms by (simp only: legalHeaderText_def js_bytes byteString_js simp_thms)

lemma event_stream_legal: "legalHeaderText (js ''text/event-stream'')"
  by (rule literal_legal)
    (simp add: legalHeaderValue_def normalizeHeaderValue_def isHttpWhitespace_def
      forbiddenInValue_def)

text \<open>
  \<open>Headers\<close> refuses a value with a line feed inside, and strips a blank at the end of a
  value: a bearer value made from such a token is not set as it is written.
\<close>

lemma setHeader_literal: "setHeader hs name (js s) = headersSet hs name s"
  by (simp only: setHeader_def toByteString_def js_bytes byteString_js if_True andThen_def
      sum.case)

lemma setHeader_refuses_line_feed:
  "setHeader hs ''authorization'' (js ''Bearer '' @ js [CHR ''t'', CHR ''o'', CHR 10, CHR ''k''])
     = Inl (JsError ''TypeError'')"
proof -
  have j: "js ''Bearer '' @ js [CHR ''t'', CHR ''o'', CHR 10, CHR ''k'']
      = js (''Bearer '' @ [CHR ''t'', CHR ''o'', CHR 10, CHR ''k''])"
    by (simp add: js_def)
  have "headersSet hs ''authorization'' (''Bearer '' @ [CHR ''t'', CHR ''o'', CHR 10, CHR ''k''])
      = Inl (JsError ''TypeError'')"
    by (simp add: headersSet_def normalizeHeaderValue_def isHttpWhitespace_def
        forbiddenInValue_def Let_def)
  then show ?thesis by (simp only: j setHeader_literal)
qed

lemma prepare_refuses_line_feed:
  "prepareAntigravityRequest consts normalizeBody (UrlString exampleUrl) None
     (js [CHR ''t'', CHR ''o'', CHR 10, CHR ''k'']) project endpointOverride
     = Inl (JsError ''TypeError'')"
proof -
  have g: "isGenerativeLanguageRequest (UrlString exampleUrl)"
    by (simp add: isGenerativeLanguageRequest_def exampleUrl_def)
  have n: "newHeaders (initHeaders (baseInitOf None)) = Inr Map.empty"
    by (simp add: baseInitOf_def newHeaders_def)
  show ?thesis
    unfolding prepareAntigravityRequest_def Let_def
    by (simp only: n g setHeader_refuses_line_feed andThen_def sum.case not_True_eq_False if_False)
qed

lemma setHeader_strips_blank:
  "setHeader hs ''authorization'' (js ''Bearer '' @ js ''tok '')
     = Inr (hs(''authorization'' \<mapsto> ''Bearer tok''))"
proof -
  have j: "js ''Bearer '' @ js ''tok '' = js ''Bearer tok ''" by (simp add: js_def)
  have "headersSet hs ''authorization'' ''Bearer tok ''
      = Inr (hs(''authorization'' \<mapsto> ''Bearer tok''))"
    by (simp add: headersSet_def normalizeHeaderValue_def isHttpWhitespace_def
        forbiddenInValue_def Let_def)
  then show ?thesis by (simp only: j setHeader_literal)
qed

text \<open>
  Claim C10. A URL string of the watched API that matches the pattern, with a body that
  is absent, the empty string, or not a string, headers of \<open>init\<close> that \<open>new Headers\<close>
  accepts, and a bearer value and client constants that \<open>Headers\<close> accepts and keeps as
  they are: \<open>prepareAntigravityRequest\<close> returns the body as it is (the rewriting of the
  body is not called, and no tool-debug header is added), the URL rewritten to the
  endpoint with the action, and the headers with the bearer token and the three client
  headers set and \<open>x-api-key\<close> removed.
\<close>

theorem prepare_without_string_body:
  assumes "includesStr url ''generativelanguage.googleapis.com''"
    and "matchModels url = Some (rawModel, rawAction)"
    and "initBody (baseInitOf init) = AbsentBody \<or> initBody (baseInitOf init) = StringBody []
         \<or> initBody (baseInitOf init) = OtherBody b"
    and "newHeaders (initHeaders (baseInitOf init)) = Inr headers0"
    and "legalHeaderText (js ''Bearer '' @ accessToken)"
    and "legalHeaderText (userAgent consts)"
    and "legalHeaderText (xGoogApiClient consts)"
    and "legalHeaderText (clientMetadata consts)"
  shows "\<exists>p. prepareAntigravityRequest consts normalizeBody (UrlString url) init accessToken
              project endpointOverride = Inr p
     \<and> transformedBody (preparedInit p) = initBody (baseInitOf init)
     \<and> transformedOthers (preparedInit p) = initOthers (baseInitOf init)
     \<and> preparedRequest p =
           UrlString ((case endpointOverride of Some e \<Rightarrow> e | None \<Rightarrow> ANTIGRAVITY_ENDPOINT consts)
             @ ''/v1internal:'' @ rawAction
             @ (if rawAction = ''streamGenerateContent'' then ''?alt=sse'' else []))
     \<and> preparedStreaming p = (rawAction = ''streamGenerateContent'')
     \<and> transformedHeaders (preparedInit p) ''authorization''
           = Some (''Bearer '' @ byteString accessToken)
     \<and> transformedHeaders (preparedInit p) ''x-api-key'' = None
     \<and> transformedHeaders (preparedInit p) ''user-agent'' = Some (byteString (userAgent consts))
     \<and> transformedHeaders (preparedInit p) ''x-goog-api-client''
           = Some (byteString (xGoogApiClient consts))
     \<and> transformedHeaders (preparedInit p) ''client-metadata''
           = Some (byteString (clientMetadata consts))
     \<and> transformedHeaders (preparedInit p) ''accept''
           = (if rawAction = ''streamGenerateContent'' then Some ''text/event-stream''
              else headers0 ''accept'')
     \<and> transformedHeaders (preparedInit p) ''x-opencode-tools-debug''
           = headers0 ''x-opencode-tools-debug''
     \<and> toolDebugMissing (preparedMeta p) = Some 0"
proof -
  have g: "isGenerativeLanguageRequest (UrlString url)"
    using assms(1) by (simp add: isGenerativeLanguageRequest_def)
  have bearer: "setHeader hs name (js ''Bearer '' @ accessToken)
      = Inr (hs(name \<mapsto> ''Bearer '' @ byteString accessToken))" for hs name
    using setHeader_legal[OF assms(5)] by (simp only: byteString_append byteString_js)
  have accept: "setHeader hs name (js ''text/event-stream'')
      = Inr (hs(name \<mapsto> ''text/event-stream''))" for hs name
    using setHeader_legal[OF event_stream_legal] by (simp only: byteString_js)
  note legal = setHeader_legal[OF assms(6)] setHeader_legal[OF assms(7)]
    setHeader_legal[OF assms(8)]
  let ?baseEndpoint = "case endpointOverride of Some e \<Rightarrow> e | None \<Rightarrow> ANTIGRAVITY_ENDPOINT consts"
  show ?thesis
  proof (cases "rawAction = ''streamGenerateContent''")
    case True
    from assms(3) show ?thesis
      unfolding prepareAntigravityRequest_def Let_def
      by (auto simp only: g assms(2) assms(4) bearer accept legal andThen_def STREAM_ACTION_def
          True sum.case option.case prod.case RequestInfo.case RequestBody.case if_True if_False
          not_True_eq_False simp_thms less_irrefl Prepared.simps TransformedInit.simps
          RequestMeta.simps fun_upd_apply list.inject char.inject)
  next
    case False
    from assms(3) show ?thesis
      unfolding prepareAntigravityRequest_def Let_def
      by (auto simp only: g assms(2) assms(4) bearer accept legal andThen_def STREAM_ACTION_def
          False sum.case option.case prod.case RequestInfo.case RequestBody.case if_True if_False
          not_True_eq_False simp_thms less_irrefl Prepared.simps TransformedInit.simps
          RequestMeta.simps fun_upd_apply list.inject char.inject)
  qed
qed

theorem prepare_without_string_body_witness:
  "\<exists>p. prepareAntigravityRequest exampleConstants (\<lambda>s m c p. Inl (JsError ''not called''))
          (UrlString exampleUrl :: unit RequestInfo) (None :: unit RequestInit option)
          (js ''token'') ''project-1'' (Some ''https://daily.example'') = Inr p
     \<and> transformedBody (preparedInit p) = AbsentBody
     \<and> preparedRequest p = UrlString ''https://daily.example/v1internal:generateContent''
     \<and> transformedHeaders (preparedInit p) ''authorization'' = Some ''Bearer token''
     \<and> transformedHeaders (preparedInit p) ''user-agent'' = Some ''antigravity/1.0''
     \<and> transformedHeaders (preparedInit p) ''accept'' = None"
proof -
  have a: "includesStr exampleUrl ''generativelanguage.googleapis.com''"
    by (simp add: exampleUrl_def)
  have b: "matchModels exampleUrl = Some (''gemini-3-pro-high'', ''generateContent'')"
    by (simp add: exampleUrl_def matchModelsAt_def isWordChar_def)
  have c: "initBody (baseInitOf (None :: unit RequestInit option)) = AbsentBody
         \<or> initBody (baseInitOf (None :: unit RequestInit option)) = StringBody []
         \<or> initBody (baseInitOf (None :: unit RequestInit option)) = OtherBody ()"
    by (simp add: baseInitOf_def)
  have d: "newHeaders (initHeaders (baseInitOf (None :: unit RequestInit option))) = Inr Map.empty"
    by (simp add: baseInitOf_def newHeaders_def)
  have l: "legalHeaderValue ''Bearer token''" "legalHeaderValue ''antigravity/1.0''"
    "legalHeaderValue ''google-cloud-sdk''" "legalHeaderValue ''ideType=IDE_UNSPECIFIED''"
    by (simp_all add: legalHeaderValue_def normalizeHeaderValue_def isHttpWhitespace_def
        forbiddenInValue_def)
  have j: "js ''Bearer '' @ js ''token'' = js ''Bearer token''" by (simp add: js_def)
  have e: "legalHeaderText (js ''Bearer '' @ js ''token'')"
    "legalHeaderText (userAgent exampleConstants)"
    "legalHeaderText (xGoogApiClient exampleConstants)"
    "legalHeaderText (clientMetadata exampleConstants)"
    using l by (simp_all only: j exampleConstants_def Constants.simps literal_legal)
  have u: "byteString (userAgent exampleConstants) = ''antigravity/1.0''"
    by (simp only: exampleConstants_def Constants.simps byteString_js)
  show ?thesis
    using prepare_without_string_body[OF a b c d e, of
        "\<lambda>s m c p. Inl (JsError ''not called'')" "''project-1''"
        "Some ''https://daily.example''"]
    by (auto simp add: baseInitOf_def byteString_js u)
qed

section \<open>Credential-set encoding\<close>











end
